theory Spec2Isabelle
  imports Main "HOL-Library.Multiset" "HOL-Library.Sublist" "HOL-Library.Char_ord"
    "HOL-Library.List_Lexorder"
begin

section \<open>Python values used by the scripts\<close>

text \<open>
  A Python \<open>str\<close> is modelled as a \<open>string\<close>: a list of 8-bit characters, each read as the
  code point of the same number (U+0000 .. U+00FF). The character tables below are the ones
  of CPython restricted to that range. CPython's optional limit on the length of a decimal
  string handed to \<open>int\<close> (4300 digits from version 3.11 on) is not part of the model.
\<close>

datatype py_error =
    KeyError string
  | ValueError string
  | TypeError string
  | SystemExit int

text \<open>A property value of the metadata file: a string, an int or a list of strings.\<close>

datatype pyval = VStr string | VInt int | VList "string list"

subsection \<open>String methods\<close>

definition is_space :: "char \<Rightarrow> bool" where
  \<comment> \<open>the characters \<open>str.isspace\<close> accepts\<close>
  "is_space c = (of_char c \<in> {9, 10, 11, 12, 13, 28, 29, 30, 31, 32, 133, 160 :: nat})"

definition is_decimal_char :: "char \<Rightarrow> bool" where
  \<comment> \<open>\<open>str.isdecimal\<close>: the characters \<open>int\<close> reads as digits\<close>
  "is_decimal_char c = (48 \<le> (of_char c :: nat) \<and> (of_char c :: nat) \<le> 57)"

definition is_digit_char :: "char \<Rightarrow> bool" where
  \<comment> \<open>\<open>str.isdigit\<close>: the decimal digits and the superscripts two, three and one\<close>
  "is_digit_char c = (is_decimal_char c \<or> of_char c \<in> {178, 179, 185 :: nat})"

definition py_lstrip :: "string \<Rightarrow> string" where
  "py_lstrip s = dropWhile is_space s"

definition py_rstrip :: "string \<Rightarrow> string" where
  "py_rstrip s = rev (dropWhile is_space (rev s))"

definition py_strip :: "string \<Rightarrow> string" where
  "py_strip s = py_lstrip (py_rstrip s)"

definition py_startswith :: "string \<Rightarrow> string \<Rightarrow> bool" where
  "py_startswith s p = (take (length p) s = p)"

definition py_endswith :: "string \<Rightarrow> string \<Rightarrow> bool" where
  "py_endswith s p = (length p \<le> length s \<and> drop (length s - length p) s = p)"

definition py_isdigit :: "string \<Rightarrow> bool" where
  "py_isdigit s = (s \<noteq> [] \<and> list_all is_digit_char s)"

definition digit_value :: "char \<Rightarrow> int" where
  "digit_value c = int (of_char c) - 48"

definition py_int :: "string \<Rightarrow> py_error + int" where
  \<comment> \<open>\<open>int(s)\<close> on a string of digit characters, the only strings the parser hands to it\<close>
  "py_int s =
     (if s \<noteq> [] \<and> list_all is_decimal_char s
      then Inr (foldl (\<lambda>n c. 10 * n + digit_value c) 0 s)
      else Inl (ValueError s))"

fun py_split :: "char \<Rightarrow> string \<Rightarrow> string list" where
  \<comment> \<open>\<open>s.split(sep)\<close> for a separator of one character\<close>
  "py_split sep [] = [[]]"
| "py_split sep (c # cs) =
     (if c = sep then [] # py_split sep cs
      else (case py_split sep cs of
              [] \<Rightarrow> [[c]]
            | w # ws \<Rightarrow> (c # w) # ws))"

definition py_split1 :: "char \<Rightarrow> string \<Rightarrow> string list" where
  \<comment> \<open>\<open>s.split(sep, 1)\<close>: at most one split, at the first separator\<close>
  "py_split1 sep s =
     (if sep \<in> set s
      then [takeWhile (\<lambda>c. c \<noteq> sep) s, tl (dropWhile (\<lambda>c. c \<noteq> sep) s)]
      else [s])"

fun py_join :: "string \<Rightarrow> string list \<Rightarrow> string" where
  "py_join sep [] = []"
| "py_join sep [x] = x"
| "py_join sep (x # y # ys) = x @ sep @ py_join sep (y # ys)"

definition slice_1_m1 :: "string \<Rightarrow> string" where
  \<comment> \<open>\<open>s[1:-1]\<close>\<close>
  "slice_1_m1 s = butlast (tl s)"

fun py_contains :: "string \<Rightarrow> string \<Rightarrow> bool" where
  \<comment> \<open>\<open>sub in s\<close> on two strings: \<open>sub\<close> occurs in \<open>s\<close> as a substring\<close>
  "py_contains sub [] = (sub = [])"
| "py_contains sub (c # cs) = (py_startswith (c # cs) sub \<or> py_contains sub cs)"

subsection \<open>Dictionaries\<close>

text \<open>
  A \<open>dict\<close> keeps its keys in the order of their first insertion, and the scripts iterate
  over it, so it is an association list with distinct keys. Assigning to a key that is
  present replaces the value where the key stands; a new key goes to the end.
\<close>

type_synonym ('k, 'v) dict = "('k \<times> 'v) list"

fun dict_set :: "('k, 'v) dict \<Rightarrow> 'k \<Rightarrow> 'v \<Rightarrow> ('k, 'v) dict" where
  "dict_set [] k v = [(k, v)]"
| "dict_set ((k', v') # d) k v =
     (if k' = k then (k, v) # d else (k', v') # dict_set d k v)"

definition dict_get :: "('k, 'v) dict \<Rightarrow> 'k \<Rightarrow> 'v \<Rightarrow> 'v" where
  \<comment> \<open>\<open>d.get(k, default)\<close>\<close>
  "dict_get d k dflt = (case map_of d k of None \<Rightarrow> dflt | Some v \<Rightarrow> v)"

definition dict_pop :: "('k, 'v) dict \<Rightarrow> 'k \<Rightarrow> ('k, 'v) dict" where
  \<comment> \<open>\<open>d.pop(k, None)\<close>, the popped value dropped\<close>
  "dict_pop d k = filter (\<lambda>kv. fst kv \<noteq> k) d"

section \<open>The metadata parser (build\_section.py, status.py)\<close>

type_synonym props = "(string, pyval) dict"
type_synonym units = "(string, props) dict"
type_synonym metadata = "(string, units) dict"

record parser_state =
  metadata :: metadata
  current_section :: "string option"
  current_unit :: "string option"

definition truthy :: "string option \<Rightarrow> bool" where
  \<comment> \<open>\<open>if current_section\<close>: neither \<open>None\<close> nor the empty string\<close>
  "truthy x = (case x of None \<Rightarrow> False | Some s \<Rightarrow> s \<noteq> [])"

definition parse_value :: "string \<Rightarrow> py_error + pyval" where
  \<comment> \<open>the value of a property line, already stripped (lines 60 to 73)\<close>
  "parse_value v =
     (if py_startswith v ''['' \<and> py_endswith v '']''
      then Inr (VList (filter (\<lambda>t. t \<noteq> []) (map py_strip (py_split CHR '','' (slice_1_m1 v)))))
      else if py_isdigit v
      then (case py_int v of Inl e \<Rightarrow> Inl e | Inr n \<Rightarrow> Inr (VInt n))
      else if py_startswith v [CHR 0x22] \<and> py_endswith v [CHR 0x22]
      then Inr (VStr (slice_1_m1 v))
      else Inr (VStr v))"

definition set_unit :: "metadata \<Rightarrow> string \<Rightarrow> string \<Rightarrow> py_error + metadata" where
  \<comment> \<open>\<open>metadata[current_section][current_unit] = {}\<close>\<close>
  "set_unit m cs cu =
     (case map_of m cs of
        None \<Rightarrow> Inl (KeyError cs)
      | Some us \<Rightarrow> Inr (dict_set m cs (dict_set us cu [])))"

definition set_prop :: "metadata \<Rightarrow> string \<Rightarrow> string \<Rightarrow> string \<Rightarrow> pyval \<Rightarrow> py_error + metadata" where
  \<comment> \<open>\<open>metadata[current_section][current_unit][key] = value\<close>\<close>
  "set_prop m cs cu k v =
     (case map_of m cs of
        None \<Rightarrow> Inl (KeyError cs)
      | Some us \<Rightarrow>
          (case map_of us cu of
             None \<Rightarrow> Inl (KeyError cu)
           | Some ps \<Rightarrow> Inr (dict_set m cs (dict_set us cu (dict_set ps k v)))))"

definition is_skipped :: "string \<Rightarrow> bool" where
  \<comment> \<open>blank lines and comments (line 38); the argument is the line after \<open>rstrip\<close>\<close>
  "is_skipped line = (py_strip line = [] \<or> py_startswith (py_strip line) ''#'')"

definition is_section_line :: "string \<Rightarrow> bool" where
  "is_section_line line = (py_endswith line '':'' \<and> \<not> py_startswith line '' '')"

definition is_unit_line :: "string \<Rightarrow> bool" where
  "is_unit_line line =
     (py_startswith line ''  '' \<and> py_endswith line '':'' \<and> \<not> py_startswith line ''    '')"

definition is_property_line :: "string \<Rightarrow> bool" where
  "is_property_line line = (py_startswith line ''    '' \<and> CHR '':'' \<in> set line)"

definition parse_property :: "parser_state \<Rightarrow> string \<Rightarrow> py_error + parser_state" where
  \<comment> \<open>lines 56 to 73: unpack the split, then store the typed value\<close>
  "parse_property st line =
     (case py_split1 CHR '':'' (py_strip line) of
        [key, raw] \<Rightarrow>
          (let v = py_strip raw in
           if truthy (current_section st) \<and> truthy (current_unit st)
           then (case parse_value v of
                   Inl e \<Rightarrow> Inl e
                 | Inr pv \<Rightarrow>
                     (case set_prop (metadata st) (the (current_section st))
                             (the (current_unit st)) key pv of
                        Inl e \<Rightarrow> Inl e
                      | Inr m \<Rightarrow> Inr (st\<lparr>metadata := m\<rparr>)))
           else Inr st)
      | _ \<Rightarrow> Inl (ValueError (py_strip line)))"

definition parse_line :: "parser_state \<Rightarrow> string \<Rightarrow> py_error + parser_state" where
  \<comment> \<open>one turn of the loop over the lines of the file (lines 34 to 73)\<close>
  "parse_line st raw =
     (let line = py_rstrip raw in
      if is_skipped line then Inr st
      else if is_section_line line
      then Inr (st\<lparr>current_section := Some (butlast line),
                   metadata := dict_set (metadata st) (butlast line) []\<rparr>)
      else if is_unit_line line
      then (let cu = butlast (py_strip line) in
            if truthy (current_section st)
            then (case set_unit (metadata st) (the (current_section st)) cu of
                    Inl e \<Rightarrow> Inl e
                  | Inr m \<Rightarrow> Inr (st\<lparr>current_unit := Some cu, metadata := m\<rparr>))
            else Inr (st\<lparr>current_unit := Some cu\<rparr>))
      else if is_property_line line then parse_property st line
      else Inr st)"

fun parse_lines :: "parser_state \<Rightarrow> string list \<Rightarrow> py_error + parser_state" where
  "parse_lines st [] = Inr st"
| "parse_lines st (l # ls) =
     (case parse_line st l of Inl e \<Rightarrow> Inl e | Inr st' \<Rightarrow> parse_lines st' ls)"

definition initial_state :: parser_state where
  "initial_state = \<lparr>metadata = [], current_section = None, current_unit = None\<rparr>"

definition parse_metadata :: "string list \<Rightarrow> py_error + metadata" where
  \<comment> \<open>the parser both scripts share, on the lines of the metadata file\<close>
  "parse_metadata ls =
     (case parse_lines initial_state ls of Inl e \<Rightarrow> Inl e | Inr st \<Rightarrow> Inr (metadata st))"

section \<open>The section builder (build\_section.py)\<close>

text \<open>
  What the scripts read: the lines of \<open>utils/unit_metadata.yaml\<close> when that file exists,
  and for a section and a unit the text of \<open>units/<section>/<unit>.tex\<close> when that file
  exists. Files that exist but cannot be read as text are outside the model.
\<close>

record file_system =
  metadata_file :: "string list option"
  unit_file :: "string \<Rightarrow> string \<Rightarrow> string option"

text \<open>
  What the scripts print on standard output, one constructor for each \<open>print\<close>. Where the
  code prints a \<open>Path\<close>, the text is the one \<open>pathlib\<close> gives that path, which need not be
  the string the path was made from.
  \<^item> \<open>MetadataNotFound\<close>: "Error: Metadata file ", the path
    \<open>Path('utils/unit_metadata.yaml')\<close>, " not found!"
  \<^item> \<open>NoMetadataForSection s\<close>: "Warning: No metadata found for section 's'"
  \<^item> \<open>UnitFileNotFound s u\<close>: "Warning: Unit file ", the path \<open>Path('units/s/u.tex')\<close>,
    " not found!"
  \<^item> \<open>NoContentWarning s\<close>: "Warning: No content generated for section 's'"
  \<^item> \<open>NoContentGenerated s\<close>: "No content generated for section 's'" (in \<open>main\<close>)
  \<^item> \<open>VerboseBuilding\<close>, \<open>VerboseTags\<close>, \<open>VerboseExclude\<close>, \<open>VerboseMaxItems\<close>: the first
    lines of \<open>--verbose\<close>
  \<^item> \<open>VerboseWritten t\<close>: "Section written to: t", where \<open>t\<close> is the text of the path
  \<^item> \<open>Printed c\<close>: the content itself, when no output file is given
  \<^item> \<open>HelpText\<close>: the help that \<open>argparse\<close> prints for \<open>--help\<close>
\<close>

datatype message =
    MetadataNotFound
  | NoMetadataForSection string
  | UnitFileNotFound string string
  | NoContentWarning string
  | NoContentGenerated string
  | VerboseBuilding string
  | VerboseTags "string list"
  | VerboseExclude "string list"
  | VerboseMaxItems int
  | VerboseWritten string
  | Printed string
  | HelpText

definition load_metadata :: "file_system \<Rightarrow> message list \<times> (py_error + metadata)" where
  "load_metadata fs =
     (case metadata_file fs of
        None \<Rightarrow> ([MetadataNotFound], Inl (SystemExit 1))
      | Some ls \<Rightarrow> ([], parse_metadata ls))"

definition load_simple_metadata :: "file_system \<Rightarrow> py_error + metadata" where
  \<comment> \<open>status.py: the same loop, and an empty mapping when the file is missing\<close>
  "load_simple_metadata fs =
     (case metadata_file fs of None \<Rightarrow> Inr [] | Some ls \<Rightarrow> parse_metadata ls)"

subsection \<open>Filtering by tags (lines 97 to 108)\<close>

fun py_in :: "string \<Rightarrow> pyval \<Rightarrow> py_error + bool" where
  \<comment> \<open>\<open>tag in unit_tags\<close>: membership in a list, substring of a string, no test on an int\<close>
  "py_in t (VList xs) = Inr (t \<in> set xs)"
| "py_in t (VStr s) = Inr (py_contains t s)"
| "py_in t (VInt n) = Inl (TypeError ''argument of type int is not iterable'')"

fun any_in :: "string list \<Rightarrow> pyval \<Rightarrow> py_error + bool" where
  \<comment> \<open>\<open>any(tag in unit_tags for tag in ts)\<close>, which stops at the first hit\<close>
  "any_in [] v = Inr False"
| "any_in (t # ts) v =
     (case py_in t v of
        Inl e \<Rightarrow> Inl e
      | Inr b \<Rightarrow> if b then Inr True else any_in ts v)"

definition unit_tags :: "props \<Rightarrow> pyval" where
  "unit_tags unit_meta = dict_get unit_meta ''tags'' (VList [])"

definition excluded :: "string list option \<Rightarrow> props \<Rightarrow> py_error + bool" where
  \<comment> \<open>\<open>exclude_tags and any(...)\<close>\<close>
  "excluded exclude_tags unit_meta =
     (case exclude_tags of
        None \<Rightarrow> Inr False
      | Some ex \<Rightarrow> if ex = [] then Inr False else any_in ex (unit_tags unit_meta))"

definition included :: "string list option \<Rightarrow> props \<Rightarrow> py_error + bool" where
  \<comment> \<open>\<open>tags is None or any(...)\<close>\<close>
  "included tags unit_meta =
     (case tags of None \<Rightarrow> Inr True | Some ts \<Rightarrow> any_in ts (unit_tags unit_meta))"

fun filter_units ::
  "string list option \<Rightarrow> string list option \<Rightarrow> units \<Rightarrow> py_error + (string \<times> props) list" where
  "filter_units tags exclude_tags [] = Inr []"
| "filter_units tags exclude_tags ((unit_name, unit_meta) # rest) =
     (case excluded exclude_tags unit_meta of
        Inl e \<Rightarrow> Inl e
      | Inr ex \<Rightarrow>
          if ex then filter_units tags exclude_tags rest
          else (case included tags unit_meta of
                  Inl e \<Rightarrow> Inl e
                | Inr inc \<Rightarrow>
                    (case filter_units tags exclude_tags rest of
                       Inl e \<Rightarrow> Inl e
                     | Inr fs \<Rightarrow> Inr (if inc then (unit_name, unit_meta) # fs else fs))))"

subsection \<open>Sorting by priority and limiting (lines 110 to 115)\<close>

definition priority_key :: "string \<times> props \<Rightarrow> pyval" where
  "priority_key u = dict_get (snd u) ''priority'' (VInt 999)"

fun is_VInt :: "pyval \<Rightarrow> bool" where
  "is_VInt (VInt n) = True" | "is_VInt v = False"

fun is_VStr :: "pyval \<Rightarrow> bool" where
  "is_VStr (VStr s) = True" | "is_VStr v = False"

fun is_VList :: "pyval \<Rightarrow> bool" where
  "is_VList (VList xs) = True" | "is_VList v = False"

fun int_of :: "pyval \<Rightarrow> int" where
  "int_of (VInt n) = n" | "int_of v = 0"

fun str_of :: "pyval \<Rightarrow> string" where
  "str_of (VStr s) = s" | "str_of v = []"

fun list_of :: "pyval \<Rightarrow> string list" where
  "list_of (VList xs) = xs" | "list_of v = []"

definition sort_units :: "(string \<times> props) list \<Rightarrow> py_error + (string \<times> props) list" where
  \<comment> \<open>\<open>list.sort(key=...)\<close>: stable and ascending when all keys have one type (ints by
      value, strings and lists in lexicographic order), \<open>TypeError\<close> at the first comparison
      of two keys of different types\<close>
  "sort_units us =
     (if list_all (\<lambda>u. is_VInt (priority_key u)) us
      then Inr (sort_key (\<lambda>u. int_of (priority_key u)) us)
      else if list_all (\<lambda>u. is_VStr (priority_key u)) us
      then Inr (sort_key (\<lambda>u. str_of (priority_key u)) us)
      else if list_all (\<lambda>u. is_VList (priority_key u)) us
      then Inr (sort_key (\<lambda>u. list_of (priority_key u)) us)
      else Inl (TypeError ''not supported between instances''))"

definition py_slice_to :: "int \<Rightarrow> 'a list \<Rightarrow> 'a list" where
  \<comment> \<open>\<open>xs[:n]\<close>: a negative \<open>n\<close> counts from the end\<close>
  "py_slice_to n xs = (if 0 \<le> n then take (nat n) xs else take (nat (int (length xs) + n)) xs)"

definition limit_units :: "int option \<Rightarrow> 'a list \<Rightarrow> 'a list" where
  \<comment> \<open>\<open>if max_items: filtered_units = filtered_units[:max_items]\<close>\<close>
  "limit_units max_items us =
     (case max_items of
        None \<Rightarrow> us
      | Some n \<Rightarrow> if n \<noteq> 0 then py_slice_to n us else us)"

subsection \<open>Reading and joining the unit files (lines 117 to 133)\<close>

fun read_units ::
  "file_system \<Rightarrow> string \<Rightarrow> (string \<times> props) list \<Rightarrow> message list \<times> string list" where
  "read_units fs section_name [] = ([], [])"
| "read_units fs section_name ((unit_name, unit_meta) # rest) =
     (let (warnings, section_content) = read_units fs section_name rest in
      case unit_file fs section_name unit_name of
        None \<Rightarrow> (UnitFileNotFound section_name unit_name # warnings, section_content)
      | Some text \<Rightarrow>
          (let content = py_strip text in
           if content \<noteq> [] then (warnings, content # section_content)
           else (warnings, section_content)))"

definition select_units ::
  "string list option \<Rightarrow> int option \<Rightarrow> string list option \<Rightarrow> units
     \<Rightarrow> py_error + (string \<times> props) list" where
  \<comment> \<open>lines 97 to 115: filter, sort, limit\<close>
  "select_units tags max_items exclude_tags section_data =
     (case filter_units tags exclude_tags section_data of
        Inl e \<Rightarrow> Inl e
      | Inr filtered \<Rightarrow>
          (case sort_units filtered of
             Inl e \<Rightarrow> Inl e
           | Inr sorted_units \<Rightarrow> Inr (limit_units max_items sorted_units)))"

definition build_section ::
  "file_system \<Rightarrow> string \<Rightarrow> string list option \<Rightarrow> int option \<Rightarrow> string list option
     \<Rightarrow> message list \<times> (py_error + string)" where
  "build_section fs section_name tags max_items exclude_tags =
     (case load_metadata fs of
        (out, Inl e) \<Rightarrow> (out, Inl e)
      | (out, Inr md) \<Rightarrow>
          (let section_data = dict_get md section_name [] in
           if section_data = [] then (out @ [NoMetadataForSection section_name], Inr [])
           else (case select_units tags max_items exclude_tags section_data of
                   Inl e \<Rightarrow> (out, Inl e)
                 | Inr filtered_units \<Rightarrow>
                     (let (warnings, section_content) =
                            read_units fs section_name filtered_units in
                      if section_content = []
                      then (out @ warnings @ [NoContentWarning section_name], Inr [])
                      else (out @ warnings,
                            Inr (py_join [CHR 0x0A, CHR 0x0A] section_content))))))"

subsection \<open>The command line (lines 148 to 212)\<close>

record args =
  arg_section :: string
  arg_tags :: "string list option"
  arg_exclude_tags :: "string list option"
  arg_max_items :: "int option"
  arg_output :: "string option"
  arg_include_header :: bool
  arg_verbose :: bool

definition verbose_header :: "args \<Rightarrow> message list" where
  "verbose_header a =
     (if arg_verbose a
      then [VerboseBuilding (arg_section a)]
           @ (case arg_tags a of None \<Rightarrow> [] | Some ts \<Rightarrow> if ts = [] then [] else [VerboseTags ts])
           @ (case arg_exclude_tags a of
                None \<Rightarrow> [] | Some ts \<Rightarrow> if ts = [] then [] else [VerboseExclude ts])
           @ (case arg_max_items a of
                None \<Rightarrow> [] | Some n \<Rightarrow> if n = 0 then [] else [VerboseMaxItems n])
      else [])"

text \<open>
  The table of headers in \<open>get_section_header\<close> has a character outside the modelled range
  (a dash in the header of the projects) and \<open>str.title\<close> maps some characters out of it,
  so the table and \<open>title\<close> are parameters.
\<close>

definition get_section_header :: "(string, string) dict \<Rightarrow> (string \<Rightarrow> string) \<Rightarrow> string \<Rightarrow> string" where
  "get_section_header headers title section_name =
     dict_get headers section_name ([CHR 0x5C] @ ''section{'' @ title section_name @ ''}'')"

text \<open>
  What \<open>parser.parse_args()\<close> makes of the command line: \<open>argparse\<close> rejects it (it
  prints the usage on standard error and calls \<open>sys.exit(2)\<close>), or it is asked for help
  (it prints the help and calls \<open>sys.exit(0)\<close>), or it returns the arguments.
\<close>

datatype command_line = BadCommandLine | HelpRequested | Parsed args

text \<open>
  \<open>main\<close> returns what it printed and how it ended: an exception that reaches the top
  (\<open>SystemExit\<close> among them), or the file it wrote, if any, as the string given for the
  path and the content. The text \<open>pathlib\<close> prints for a path made from a string is the
  parameter \<open>path_text\<close>. Errors of the operating system while writing are outside the
  model.
\<close>

definition main ::
  "(string, string) dict \<Rightarrow> (string \<Rightarrow> string) \<Rightarrow> (string \<Rightarrow> string) \<Rightarrow> file_system
     \<Rightarrow> command_line \<Rightarrow> message list \<times> (py_error + (string \<times> string) option)" where
  "main headers title path_text fs cl =
     (case cl of
        BadCommandLine \<Rightarrow> ([], Inl (SystemExit 2))
      | HelpRequested \<Rightarrow> ([HelpText], Inl (SystemExit 0))
      | Parsed a \<Rightarrow>
     (case build_section fs (arg_section a) (arg_tags a) (arg_max_items a) (arg_exclude_tags a) of
        (out, Inl e) \<Rightarrow> (verbose_header a @ out, Inl e)
      | (out, Inr content) \<Rightarrow>
          if content = []
          then (verbose_header a @ out @ [NoContentGenerated (arg_section a)], Inl (SystemExit 1))
          else (let content' =
                      (if arg_include_header a
                       then get_section_header headers title (arg_section a)
                              @ [CHR 0x0A, CHR 0x0A] @ content
                       else content)
                in case arg_output a of
                     Some path \<Rightarrow>
                       if path = [] then (verbose_header a @ out @ [Printed content'], Inr None)
                       else (verbose_header a @ out
                               @ (if arg_verbose a then [VerboseWritten (path_text path)] else []),
                             Inr (Some (path, content')))
                   | None \<Rightarrow> (verbose_header a @ out @ [Printed content'], Inr None))))"

definition exit_status :: "py_error + 'a \<Rightarrow> int" where
  \<comment> \<open>the status of the process: that of \<open>sys.exit\<close>, 1 for any other exception, else 0\<close>
  "exit_status r = (case r of Inl (SystemExit n) \<Rightarrow> n | Inl _ \<Rightarrow> 1 | Inr _ \<Rightarrow> 0)"

section \<open>Splitting the bibliography (generate\_bibfiles.py)\<close>

text \<open>
  The entries come from the pybtex library. Its \<open>Entry\<close> keeps the type in lower case and
  the fields in an ordered dictionary whose lookup ignores the case of the field name;
  \<open>dict(entry.fields)\<close> is an ordinary dictionary with the same items. Both kinds of
  dictionary reach the functions below, so \<open>field_dict\<close> says which one it is. The persons of
  an entry are only handed on, and their type is left open. Other attributes of an
  \<open>Entry\<close> are not modelled.
\<close>

definition py_lower_char :: "char \<Rightarrow> char" where
  \<comment> \<open>\<open>str.lower\<close> on one character\<close>
  "py_lower_char c =
     (let n = (of_char c :: nat) in
      if (65 \<le> n \<and> n \<le> 90) \<or> (192 \<le> n \<and> n \<le> 222 \<and> n \<noteq> 215)
      then char_of (n + 32) else c)"

definition py_lower :: "string \<Rightarrow> string" where
  "py_lower s = map py_lower_char s"

datatype field_dict =
    CaseInsensitive "(string, string) dict"
  | Plain "(string, string) dict"

fun fields_items :: "field_dict \<Rightarrow> (string, string) dict" where
  "fields_items (CaseInsensitive d) = d"
| "fields_items (Plain d) = d"

fun fields_lookup :: "field_dict \<Rightarrow> string \<Rightarrow> string option" where
  "fields_lookup (CaseInsensitive d) k = map_of (map (\<lambda>(n, v). (py_lower n, v)) d) (py_lower k)"
| "fields_lookup (Plain d) k = map_of d k"

definition fields_get :: "field_dict \<Rightarrow> string \<Rightarrow> string \<Rightarrow> string" where
  \<comment> \<open>\<open>entry.fields.get(k, default)\<close>\<close>
  "fields_get f k dflt = (case fields_lookup f k of None \<Rightarrow> dflt | Some v \<Rightarrow> v)"

record 'p entry =
  etype :: string
  efields :: field_dict
  persons :: 'p

definition default_prefixes :: "string list" where
  "default_prefixes = [''pub:'', ''topic:'', ''meta:'']"

definition remap_keywords :: "(string, string) dict \<Rightarrow> string list \<Rightarrow> string \<Rightarrow> string list" where
  \<comment> \<open>lines 37 to 46: strip each keyword, remap it, keep it when a valid prefix starts it\<close>
  "remap_keywords keyword_mappings valid_prefixes kws =
     filter (\<lambda>mapped_kw. list_ex (\<lambda>prefix. py_startswith mapped_kw prefix) valid_prefixes)
       (map (\<lambda>kw. dict_get keyword_mappings kw kw) (map py_strip (py_split CHR '','' kws)))"

definition process_keywords ::
  "'p entry \<Rightarrow> (string, string) dict \<Rightarrow> string list option \<Rightarrow> 'p entry" where
  "process_keywords e keyword_mappings valid_prefixes =
     (case fields_lookup (efields e) ''keywords'' of
        None \<Rightarrow> e
      | Some kws \<Rightarrow>
          (let vp = (case valid_prefixes of None \<Rightarrow> default_prefixes | Some ps \<Rightarrow> ps);
               remapped = remap_keywords keyword_mappings vp kws;
               new_fields = fields_items (efields e)
           in \<lparr>etype = py_lower (etype e),
               efields = Plain (if remapped \<noteq> []
                               then dict_set new_fields ''keywords'' (py_join '', '' remapped)
                               else dict_pop new_fields ''keywords''),
               persons = persons e\<rparr>))"

type_synonym 'p subsets = "(string, (string, 'p entry) dict) dict"

definition entry_tags :: "string \<Rightarrow> 'p entry \<Rightarrow> string list" where
  \<comment> \<open>lines 70 to 75\<close>
  "entry_tags tag_prefix e =
     map py_strip
       (filter (\<lambda>kw. py_startswith (py_strip kw) tag_prefix)
          (py_split CHR '','' (fields_get (efields e) ''keywords'' [])))"

definition subset_name_of :: "string \<Rightarrow> string \<Rightarrow> string" where
  \<comment> \<open>\<open>tag[len(tag_prefix):].strip()\<close>\<close>
  "subset_name_of tag_prefix tag = py_strip (drop (length tag_prefix) tag)"

definition subsets_add :: "'p subsets \<Rightarrow> string \<Rightarrow> string \<Rightarrow> 'p entry \<Rightarrow> 'p subsets" where
  \<comment> \<open>\<open>subsets[subset_name][key] = entry\<close> on a \<open>defaultdict(dict)\<close>\<close>
  "subsets_add subsets subset_name key e =
     dict_set subsets subset_name (dict_set (dict_get subsets subset_name []) key e)"

fun add_tags :: "'p subsets \<Rightarrow> string \<Rightarrow> string \<Rightarrow> 'p entry \<Rightarrow> string list \<Rightarrow> 'p subsets" where
  \<comment> \<open>the loop over the tags of one entry (lines 77 to 80)\<close>
  "add_tags subsets tag_prefix key e [] = subsets"
| "add_tags subsets tag_prefix key e (tag # tags) =
     add_tags
       (if subset_name_of tag_prefix tag \<noteq> []
        then subsets_add subsets (subset_name_of tag_prefix tag) key e
        else subsets)
       tag_prefix key e tags"

fun extract_loop ::
  "'p subsets \<times> (string, 'p entry) dict \<Rightarrow> string \<Rightarrow> (string, 'p entry) dict
     \<Rightarrow> 'p subsets \<times> (string, 'p entry) dict" where
  "extract_loop (subsets, all_entries) tag_prefix [] = (subsets, all_entries)"
| "extract_loop (subsets, all_entries) tag_prefix ((key, e) # rest) =
     extract_loop
       (add_tags subsets tag_prefix key e (entry_tags tag_prefix e), dict_set all_entries key e)
       tag_prefix rest"

definition extract_tagged_entries ::
  "(string, 'p entry) dict \<Rightarrow> string \<Rightarrow> 'p subsets \<times> (string, 'p entry) dict" where
  \<comment> \<open>the first argument is \<open>bib_data.entries.items()\<close>\<close>
  "extract_tagged_entries bib_data tag_prefix = extract_loop ([], []) tag_prefix bib_data"

section \<open>Notions used to state the properties\<close>

definition tags_of :: "props \<Rightarrow> string list" where
  \<comment> \<open>the tag list of a unit; a unit without a \<open>tags\<close> property has the empty one\<close>
  "tags_of unit_meta = (case map_of unit_meta ''tags'' of Some (VList xs) \<Rightarrow> xs | _ \<Rightarrow> [])"

definition tags_well_typed :: "props \<Rightarrow> bool" where
  \<comment> \<open>the \<open>tags\<close> property is absent or a list\<close>
  "tags_well_typed unit_meta =
     (case map_of unit_meta ''tags'' of None \<Rightarrow> True | Some v \<Rightarrow> is_VList v)"

definition has_any :: "string list \<Rightarrow> string list \<Rightarrow> bool" where
  \<comment> \<open>the tag list \<open>xs\<close> contains at least one of the tags \<open>ts\<close>\<close>
  "has_any ts xs = list_ex (\<lambda>t. t \<in> set xs) ts"

definition selected_by_tags :: "string list option \<Rightarrow> string list option \<Rightarrow> props \<Rightarrow> bool" where
  "selected_by_tags tags exclude_tags unit_meta =
     ((case tags of None \<Rightarrow> True | Some ts \<Rightarrow> has_any ts (tags_of unit_meta))
      \<and> \<not> (case exclude_tags of None \<Rightarrow> False | Some ex \<Rightarrow> has_any ex (tags_of unit_meta)))"

definition example_units :: units where
  "example_units =
     [(''phd'', [(''tags'', VList [''full_cv'', ''short_cv'']), (''priority'', VInt 2)]),
      (''msc'', [(''tags'', VList [''full_cv'', ''old'']), (''priority'', VInt 1)]),
      (''course'', [(''priority'', VInt 1)]),
      (''school'', [(''tags'', VList [''full_cv''])])]"

definition example_lines :: "string list" where
  \<comment> \<open>a metadata file whose one section is \<open>example_units\<close>\<close>
  "example_lines =
     [''education:'',
      ''  phd:'', ''    tags: [full_cv, short_cv]'', ''    priority: 2'',
      ''  msc:'', ''    tags: [full_cv, old]'', ''    priority: 1'',
      ''  course:'', ''    priority: 1'',
      ''  school:'', ''    tags: [full_cv]'']"

definition all_files_fs :: file_system where
  \<comment> \<open>that metadata file, and for every unit a file that holds the name of the unit\<close>
  "all_files_fs =
     \<lparr>metadata_file = Some example_lines,
      unit_file = (\<lambda>section_name unit_name. Some unit_name)\<rparr>"

definition mistyped_tags_fs :: file_system where
  \<comment> \<open>two units, the second with a number where the tag list should be\<close>
  "mistyped_tags_fs =
     \<lparr>metadata_file = Some [''s:'', ''  u1:'', ''    tags: [a]'', ''  u2:'', ''    tags: 7''],
      unit_file = (\<lambda>section_name unit_name. Some ''text'')\<rparr>"

definition priority_of :: "string \<times> props \<Rightarrow> int" where
  \<comment> \<open>the integer priority of a unit; 999 for a unit without a \<open>priority\<close> property\<close>
  "priority_of u = (case map_of (snd u) ''priority'' of Some (VInt n) \<Rightarrow> n | _ \<Rightarrow> 999)"

definition priority_well_typed :: "string \<times> props \<Rightarrow> bool" where
  \<comment> \<open>the \<open>priority\<close> property is absent or an int\<close>
  "priority_well_typed u =
     (case map_of (snd u) ''priority'' of None \<Rightarrow> True | Some v \<Rightarrow> is_VInt v)"

definition unit_contents :: "file_system \<Rightarrow> string \<Rightarrow> (string \<times> props) list \<Rightarrow> string list" where
  \<comment> \<open>the stripped texts of the files of the given units, in their order, without the
      units that have no file and without the texts that are empty once stripped\<close>
  "unit_contents fs section_name us =
     filter (\<lambda>c. c \<noteq> [])
       (map py_strip (List.map_filter (\<lambda>u. unit_file fs section_name (fst u)) us))"

definition example_fs :: file_system where
  "example_fs =
     \<lparr>metadata_file =
        Some [''# units'', ''education:'',
              ''  phd:'', ''    tags: [full_cv, short_cv]'', ''    priority: 2'',
              ''  msc:'', ''    tags: [full_cv]'', ''    priority: 1'',
              ''  course:'', ''    tags: [full_cv]'', ''    priority: 1'',
              ''  school:'', ''    tags: [full_cv]''],
      unit_file = (\<lambda>section_name unit_name.
         if section_name = ''education'' \<and> unit_name = ''phd'' then Some '' PhD  ''
         else if section_name = ''education'' \<and> unit_name = ''msc'' then Some [CHR 0x0A]
         else if section_name = ''education'' \<and> unit_name = ''school'' then Some ''School''
         else None)\<rparr>"

definition is_exit :: "py_error \<Rightarrow> bool" where
  "is_exit e = (case e of SystemExit n \<Rightarrow> True | _ \<Rightarrow> False)"

definition complete_fs :: file_system where
  \<comment> \<open>a metadata file and a file for every unit\<close>
  "complete_fs =
     \<lparr>metadata_file = Some [''s:'', ''  u:'', ''    tags: [a]''],
      unit_file = (\<lambda>section_name unit_name. Some ''text'')\<rparr>"

definition no_match_args :: args where
  \<comment> \<open>\<open>build_section.py s --tags b\<close>\<close>
  "no_match_args =
     \<lparr>arg_section = ''s'', arg_tags = Some [''b''], arg_exclude_tags = None,
      arg_max_items = None, arg_output = None, arg_include_header = False,
      arg_verbose = False\<rparr>"

definition section_name_of :: "string \<Rightarrow> string option" where
  \<comment> \<open>the name a line of the file gives to a section, when the parser takes it as a
      top-level section line\<close>
  "section_name_of raw =
     (let line = py_rstrip raw in
      if \<not> is_skipped line \<and> is_section_line line then Some (butlast line) else None)"

definition unit_name_of :: "string \<Rightarrow> string option" where
  \<comment> \<open>the name a line of the file gives to a unit, when the parser takes it as a unit line\<close>
  "unit_name_of raw =
     (let line = py_rstrip raw in
      if \<not> is_skipped line \<and> \<not> is_section_line line \<and> is_unit_line line
      then Some (butlast (py_strip line)) else None)"

definition units_of :: "metadata \<Rightarrow> string \<Rightarrow> string set" where
  \<comment> \<open>the names of the units recorded for a section\<close>
  "units_of m section_name = fst ` set (dict_get m section_name [])"

definition agree :: "parser_state \<Rightarrow> parser_state \<Rightarrow> bool" where
  \<comment> \<open>two runs of the parser after the same section line, the second started afresh:
      they are in the same section, every section of the second has the same units in the
      first, and they are in the same unit, unless the second has seen none yet in a
      section that is still empty\<close>
  "agree st st' =
     (current_section st = current_section st'
      \<and> map_of (metadata st') \<subseteq>\<^sub>m map_of (metadata st)
      \<and> (\<exists>cs. current_section st' = Some cs \<and> map_of (metadata st') cs \<noteq> None)
      \<and> (current_unit st = current_unit st'
           \<or> (current_unit st' = None
               \<and> map_of (metadata st') (the (current_section st')) = Some [])))"

definition stale_unit_lines :: "string list" where
  \<comment> \<open>a property line right after a new section line, the unit of the previous section
      still being the current one\<close>
  "stale_unit_lines = [''a:'', ''  u:'', ''    k: v'', ''b:'', ''    k: v'']"

definition superscript_lines :: "string list" where
  \<comment> \<open>a priority written as the superscript two (U+00B2)\<close>
  "superscript_lines = [''s:'', ''  u:'', ''    priority: '' @ [CHR 0xB2]]"

definition fs_with :: "string list \<Rightarrow> file_system" where
  \<comment> \<open>a file system with the given metadata file and no unit files\<close>
  "fs_with ls = \<lparr>metadata_file = Some ls, unit_file = (\<lambda>section_name unit_name. None)\<rparr>"

definition keywords_of :: "'p entry \<Rightarrow> string" where
  \<comment> \<open>the value of the \<open>keywords\<close> field, empty when the entry has none\<close>
  "keywords_of e = fields_get (efields e) ''keywords'' []"

definition placed_in :: "string \<Rightarrow> 'p entry \<Rightarrow> string \<Rightarrow> bool" where
  \<comment> \<open>one of the comma-separated keywords, stripped, starts with the prefix, and what
      follows the prefix, stripped, is the non-empty name \<open>S\<close>\<close>
  "placed_in tag_prefix e S =
     (S \<noteq> []
      \<and> list_ex (\<lambda>kw. py_startswith (py_strip kw) tag_prefix
                      \<and> py_strip (drop (length tag_prefix) (py_strip kw)) = S)
           (py_split CHR '','' (keywords_of e)))"

definition subset_lookup :: "'p subsets \<Rightarrow> string \<Rightarrow> string \<Rightarrow> 'p entry option" where
  \<comment> \<open>the entry a subset holds under a key, if the subset exists and has the key\<close>
  "subset_lookup subsets S key = map_of (dict_get subsets S []) key"

definition example_bib :: "(string, unit entry) dict" where
  "example_bib =
     [(''smith2020'',
       \<lparr>etype = ''article'',
        efields = CaseInsensitive
          [(''title'', ''A''), (''Keywords'', ''pub:journal, topic:x , pub: highlight'')],
        persons = ()\<rparr>),
      (''doe2021'',
       \<lparr>etype = ''book'', efields = CaseInsensitive [(''title'', ''B'')], persons = ()\<rparr>)]"

definition other_fields :: "field_dict \<Rightarrow> (string, string) dict" where
  \<comment> \<open>the fields stored under another name than \<open>keywords\<close>, in their order\<close>
  "other_fields f = filter (\<lambda>kv. fst kv \<noteq> ''keywords'') (fields_items f)"

definition example_entry :: "unit entry" where
  "example_entry =
     \<lparr>etype = ''article'',
      efields = CaseInsensitive
        [(''title'', ''A''), (''keywords'', ''journal, topic:x , draft''), (''year'', ''2020'')],
      persons = ()\<rparr>"

definition capitalised_entry :: "string \<Rightarrow> unit entry" where
  \<comment> \<open>an entry as read from \<open>@article{k, title = {A}, Keywords = {...}}\<close>\<close>
  "capitalised_entry kws =
     \<lparr>etype = ''article'',
      efields = CaseInsensitive [(''title'', ''A''), (''Keywords'', kws)],
      persons = ()\<rparr>"

section \<open>Properties of the section builder\<close>

subsection \<open>Selection by tags\<close>

lemma any_in_VList: "any_in ts (VList xs) = Inr (has_any ts xs)"
  by (induction ts) (simp_all add: has_any_def)

lemma unit_tags_well_typed:
  "tags_well_typed unit_meta \<Longrightarrow> unit_tags unit_meta = VList (tags_of unit_meta)"
  by (cases "map_of unit_meta ''tags''"; cases "the (map_of unit_meta ''tags'')")
     (simp_all add: tags_well_typed_def unit_tags_def tags_of_def dict_get_def)

lemma excluded_well_typed:
  "tags_well_typed unit_meta \<Longrightarrow>
   excluded exclude_tags unit_meta =
     Inr (case exclude_tags of None \<Rightarrow> False | Some ex \<Rightarrow> has_any ex (tags_of unit_meta))"
  by (cases exclude_tags)
     (simp_all add: excluded_def unit_tags_well_typed any_in_VList has_any_def)

lemma included_well_typed:
  "tags_well_typed unit_meta \<Longrightarrow>
   included tags unit_meta =
     Inr (case tags of None \<Rightarrow> True | Some ts \<Rightarrow> has_any ts (tags_of unit_meta))"
  by (cases tags) (simp_all add: included_def unit_tags_well_typed any_in_VList)

text \<open>
  C1 (amended). Selection by tags in \<open>build_section\<close> (lines 97 to 108): when the \<open>tags\<close>
  property of every unit of the section is absent or a list, the filter returns, in the
  order of the metadata, exactly the units for which (the tags filter is \<open>None\<close>, or the
  unit's tag list contains one of the requested tags) and not (an exclude list is given
  and the unit's tag list contains one of its tags); a unit without the property has the
  empty tag list.
\<close>

theorem filter_units_selects:
  assumes "list_all (\<lambda>u. tags_well_typed (snd u)) section_data"
  shows "filter_units tags exclude_tags section_data =
           Inr (filter (\<lambda>u. selected_by_tags tags exclude_tags (snd u)) section_data)"
  using assms
proof (induction section_data)
  case Nil
  show ?case by simp
next
  case (Cons u rest)
  obtain unit_name unit_meta where u: "u = (unit_name, unit_meta)" by (cases u)
  from Cons.prems u have wt: "tags_well_typed unit_meta" by simp
  from Cons have rest: "filter_units tags exclude_tags rest =
      Inr (filter (\<lambda>u. selected_by_tags tags exclude_tags (snd u)) rest)" by simp
  show ?case
    unfolding u
    by (auto simp add: excluded_well_typed [OF wt] included_well_typed [OF wt] rest
        selected_by_tags_def split: option.splits)
qed

theorem filter_units_selects_witness:
  "list_all (\<lambda>u. tags_well_typed (snd u)) example_units
   \<and> filter_units (Some [''short_cv'', ''full_cv'']) (Some [''old'']) example_units =
       Inr [(''phd'', [(''tags'', VList [''full_cv'', ''short_cv'']), (''priority'', VInt 2)]),
            (''school'', [(''tags'', VList [''full_cv''])])]"
proof -
  have h: "list_all (\<lambda>u. tags_well_typed (snd u)) example_units"
    by code_simp
  have "filter (\<lambda>u. selected_by_tags (Some [''short_cv'', ''full_cv'']) (Some [''old'']) (snd u))
          example_units =
        [(''phd'', [(''tags'', VList [''full_cv'', ''short_cv'']), (''priority'', VInt 2)]),
         (''school'', [(''tags'', VList [''full_cv''])])]"
    by code_simp
  with filter_units_selects [OF h, of "Some [''short_cv'', ''full_cv'']" "Some [''old'']"] h
  show ?thesis by simp
qed

text \<open>
  As the claim is written, for every unit, it fails: a unit whose \<open>tags\<close> value is a number
  makes the filter raise \<open>TypeError\<close>, and then no unit is selected, not even one whose tag
  list holds a requested tag.
\<close>

theorem tag_selection_counterexample:
  "parse_metadata (the (metadata_file mistyped_tags_fs)) =
     Inr [(''s'', [(''u1'', [(''tags'', VList [''a''])]), (''u2'', [(''tags'', VInt 7)])])]
   \<and> selected_by_tags (Some [''a'']) None [(''tags'', VList [''a''])]
   \<and> build_section mistyped_tags_fs ''s'' (Some [''a'']) None None =
       ([], Inl (TypeError ''argument of type int is not iterable''))"
  by code_simp

text \<open>A \<open>tags\<close> value written without brackets is a string, and is searched for substrings.\<close>

lemma string_tags_match_substrings:
  "parse_metadata [''s:'', ''  u:'', ''    tags: full_cv''] =
     Inr [(''s'', [(''u'', [(''tags'', VStr ''full_cv'')])])]
   \<and> filter_units (Some [''cv'']) None [(''u'', [(''tags'', VStr ''full_cv'')])] =
       Inr [(''u'', [(''tags'', VStr ''full_cv'')])]"
  by code_simp

subsection \<open>Order and limit\<close>

lemma insort_key_agree:
  "f x = g x \<Longrightarrow> (\<forall>y \<in> set ys. f y = g y) \<Longrightarrow> insort_key f x ys = insort_key g x ys"
  by (induction ys) simp_all

lemma sort_key_agree:
  "(\<forall>x \<in> set xs. f x = g x) \<Longrightarrow> sort_key f xs = sort_key g xs"
proof (induction xs)
  case Nil
  show ?case by simp
next
  case (Cons x xs)
  then have eq: "sort_key f xs = sort_key g xs" by simp
  have "f x = g x" and "\<forall>y \<in> set (sort_key g xs). f y = g y"
    using Cons.prems by simp_all
  then have "insort_key f x (sort_key g xs) = insort_key g x (sort_key g xs)"
    by (rule insort_key_agree)
  with eq show ?case by simp
qed

lemma priority_key_well_typed:
  "priority_well_typed u \<Longrightarrow> priority_key u = VInt (priority_of u)"
  by (cases "map_of (snd u) ''priority''"; cases "the (map_of (snd u) ''priority'')")
     (simp_all add: priority_well_typed_def priority_key_def priority_of_def dict_get_def)

lemma sort_units_well_typed:
  assumes "list_all priority_well_typed us"
  shows "sort_units us = Inr (sort_key priority_of us)"
proof -
  from assms have keys: "\<forall>u \<in> set us. priority_key u = VInt (priority_of u)"
    by (simp add: list_all_iff priority_key_well_typed)
  then have "list_all (\<lambda>u. is_VInt (priority_key u)) us"
    by (simp add: list_all_iff)
  moreover have "sort_key (\<lambda>u. int_of (priority_key u)) us = sort_key priority_of us"
    by (rule sort_key_agree) (simp add: keys)
  ultimately show ?thesis
    by (simp add: sort_units_def)
qed

lemma filter_units_subseq:
  "filter_units tags exclude_tags section_data = Inr filtered \<Longrightarrow> subseq filtered section_data"
proof (induction section_data arbitrary: filtered)
  case Nil
  then show ?case by simp
next
  case (Cons u rest)
  obtain unit_name unit_meta where u: "u = (unit_name, unit_meta)" by (cases u)
  from Cons.prems obtain fs where "filter_units tags exclude_tags rest = Inr fs"
    and "filtered = fs \<or> filtered = u # fs"
    unfolding u by (auto split: sum.splits if_splits)
  with Cons.IH [of fs] show ?case by auto
qed

text \<open>
  C2. Order in \<open>build_section\<close> (lines 110 to 115): the units that pass the filter stand in
  the order of the metadata file; when each has an integer \<open>priority\<close> or none, they are
  sorted in ascending order of that integer, 999 standing for a missing one; the sort
  keeps all of them and leaves units of equal priority in the order they had; without a
  limit the sorted list is the selection, and with a positive \<open>max_items\<close> the selection
  is its first \<open>max_items\<close> units.
\<close>

theorem select_units_sorted_and_limited:
  assumes "filter_units tags exclude_tags section_data = Inr filtered"
    and "list_all priority_well_typed filtered"
  shows "\<exists>sorted_units.
           subseq filtered section_data
         \<and> sort_units filtered = Inr sorted_units
         \<and> sorted (map priority_of sorted_units)
         \<and> mset sorted_units = mset filtered
         \<and> (\<forall>k. filter (\<lambda>u. priority_of u = k) sorted_units =
                 filter (\<lambda>u. priority_of u = k) filtered)
         \<and> select_units tags None exclude_tags section_data = Inr sorted_units
         \<and> (0 < n \<longrightarrow>
              select_units tags (Some n) exclude_tags section_data =
                Inr (take (nat n) sorted_units))"
proof -
  have s: "sort_units filtered = Inr (sort_key priority_of filtered)"
    by (rule sort_units_well_typed [OF assms(2)])
  have "select_units tags None exclude_tags section_data = Inr (sort_key priority_of filtered)"
    by (simp add: select_units_def assms(1) s limit_units_def)
  moreover have "0 < n \<longrightarrow> select_units tags (Some n) exclude_tags section_data =
      Inr (take (nat n) (sort_key priority_of filtered))"
    by (simp add: select_units_def assms(1) s limit_units_def py_slice_to_def)
  moreover have "\<forall>k. filter (\<lambda>u. priority_of u = k) (sort_key priority_of filtered) =
      filter (\<lambda>u. priority_of u = k) filtered"
    by (rule allI) (rule sort_key_stable)
  moreover have "sorted (map priority_of (sort_key priority_of filtered))"
    by (rule sorted_sort_key)
  moreover have "mset (sort_key priority_of filtered) = mset filtered"
    by (rule mset_sort)
  moreover have "subseq filtered section_data"
    by (rule filter_units_subseq [OF assms(1)])
  ultimately show ?thesis
    using s by (intro exI [of _ "sort_key priority_of filtered"] conjI)
qed

theorem select_units_sorted_and_limited_witness:
  "filter_units (Some [''full_cv'']) None example_units =
     Inr [(''phd'', [(''tags'', VList [''full_cv'', ''short_cv'']), (''priority'', VInt 2)]),
          (''msc'', [(''tags'', VList [''full_cv'', ''old'']), (''priority'', VInt 1)]),
          (''school'', [(''tags'', VList [''full_cv''])])]
   \<and> list_all priority_well_typed
       [(''phd'', [(''tags'', VList [''full_cv'', ''short_cv'']), (''priority'', VInt 2)]),
        (''msc'', [(''tags'', VList [''full_cv'', ''old'']), (''priority'', VInt 1)]),
        (''school'', [(''tags'', VList [''full_cv''])])]
   \<and> (0::int) < 2
   \<and> select_units (Some [''full_cv'']) (Some 2) None example_units =
       Inr [(''msc'', [(''tags'', VList [''full_cv'', ''old'']), (''priority'', VInt 1)]),
            (''phd'', [(''tags'', VList [''full_cv'', ''short_cv'']), (''priority'', VInt 2)])]"
proof -
  let ?filtered =
    "[(''phd'', [(''tags'', VList [''full_cv'', ''short_cv'']), (''priority'', VInt 2)]),
      (''msc'', [(''tags'', VList [''full_cv'', ''old'']), (''priority'', VInt 1)]),
      (''school'', [(''tags'', VList [''full_cv''])])]"
  have f: "filter_units (Some [''full_cv'']) None example_units = Inr ?filtered"
    by code_simp
  have w: "list_all priority_well_typed ?filtered"
    by code_simp
  have c: "sort_units ?filtered =
      Inr [(''msc'', [(''tags'', VList [''full_cv'', ''old'']), (''priority'', VInt 1)]),
           (''phd'', [(''tags'', VList [''full_cv'', ''short_cv'']), (''priority'', VInt 2)]),
           (''school'', [(''tags'', VList [''full_cv''])])]"
    by code_simp
  from select_units_sorted_and_limited [OF f w, of 2] c
  have "select_units (Some [''full_cv'']) (Some 2) None example_units =
      Inr [(''msc'', [(''tags'', VList [''full_cv'', ''old'']), (''priority'', VInt 1)]),
           (''phd'', [(''tags'', VList [''full_cv'', ''short_cv'']), (''priority'', VInt 2)])]"
    by auto
  with f w show ?thesis by simp
qed

subsection \<open>Concatenation\<close>

lemma read_units_contents:
  "snd (read_units fs section_name us) = unit_contents fs section_name us"
proof (induction us)
  case Nil
  show ?case by (simp add: unit_contents_def)
next
  case (Cons u us)
  obtain unit_name unit_meta where u: "u = (unit_name, unit_meta)" by (cases u)
  from Cons show ?case
    unfolding u
    by (cases "read_units fs section_name us")
       (simp add: unit_contents_def Let_def split: option.splits)
qed

lemma build_section_content:
  assumes "metadata_file fs = Some ls"
    and "parse_metadata ls = Inr md"
    and "select_units tags max_items exclude_tags (dict_get md section_name []) = Inr selected"
  shows "snd (build_section fs section_name tags max_items exclude_tags) =
           Inr (py_join [CHR 0x0A, CHR 0x0A] (unit_contents fs section_name selected))"
proof -
  have l: "load_metadata fs = ([], Inr md)"
    by (simp add: load_metadata_def assms(1, 2))
  have empty: "selected = []" if "dict_get md section_name [] = []"
    using assms(3) that
    by (simp add: select_units_def sort_units_def limit_units_def py_slice_to_def
        split: option.splits if_splits)
  have r: "snd (read_units fs section_name selected) = unit_contents fs section_name selected"
    by (rule read_units_contents)
  have "snd (build_section fs section_name tags max_items exclude_tags) =
      Inr (py_join [CHR 0x0A, CHR 0x0A] (unit_contents fs section_name selected))"
  proof (cases "dict_get md section_name [] = []")
    case True
    with empty have "selected = []" by simp
    with True show ?thesis
      by (simp add: build_section_def l unit_contents_def)
  next
    case False
    with r show ?thesis
      by (cases "read_units fs section_name selected")
         (simp add: build_section_def l assms(3))
  qed
  then show ?thesis .
qed

text \<open>
  C3. Concatenation in \<open>build_section\<close> (lines 117 to 133): when the metadata file is read
  and the selection succeeds, the returned string is the stripped contents of the selected
  units' files, in the selected order, joined by a blank line; a unit without a file or
  with a file that is empty once stripped contributes nothing; and when nothing is
  contributed the returned string is empty.
\<close>

theorem build_section_joins_contents:
  assumes "metadata_file fs = Some ls"
    and "parse_metadata ls = Inr md"
    and "select_units tags max_items exclude_tags (dict_get md section_name []) = Inr selected"
  shows "snd (build_section fs section_name tags max_items exclude_tags) =
           Inr (py_join [CHR 0x0A, CHR 0x0A] (unit_contents fs section_name selected))
       \<and> (unit_contents fs section_name selected = [] \<longrightarrow>
            snd (build_section fs section_name tags max_items exclude_tags) = Inr [])"
  using build_section_content [OF assms] by simp

theorem build_section_joins_contents_witness:
  "metadata_file example_fs = Some (the (metadata_file example_fs))
   \<and> (\<exists>md selected.
        parse_metadata (the (metadata_file example_fs)) = Inr md
      \<and> select_units (Some [''full_cv'']) None None (dict_get md ''education'' []) = Inr selected
      \<and> map fst selected = [''msc'', ''course'', ''phd'', ''school''])
   \<and> snd (build_section example_fs ''education'' (Some [''full_cv'']) None None) =
       Inr (''PhD'' @ [CHR 0x0A, CHR 0x0A] @ ''School'')"
proof -
  let ?md = "[(''education'',
      [(''phd'', [(''tags'', VList [''full_cv'', ''short_cv'']), (''priority'', VInt 2)]),
       (''msc'', [(''tags'', VList [''full_cv'']), (''priority'', VInt 1)]),
       (''course'', [(''tags'', VList [''full_cv'']), (''priority'', VInt 1)]),
       (''school'', [(''tags'', VList [''full_cv''])])])]"
  let ?selected =
     "[(''msc'', [(''tags'', VList [''full_cv'']), (''priority'', VInt 1)]),
       (''course'', [(''tags'', VList [''full_cv'']), (''priority'', VInt 1)]),
       (''phd'', [(''tags'', VList [''full_cv'', ''short_cv'']), (''priority'', VInt 2)]),
       (''school'', [(''tags'', VList [''full_cv''])])]"
  have f: "metadata_file example_fs = Some (the (metadata_file example_fs))"
    by (simp add: example_fs_def)
  have p: "parse_metadata (the (metadata_file example_fs)) = Inr ?md"
    by code_simp
  have s: "select_units (Some [''full_cv'']) None None (dict_get ?md ''education'' []) =
      Inr ?selected"
    by code_simp
  have c: "unit_contents example_fs ''education'' ?selected = [''PhD'', ''School'']"
    by code_simp
  from build_section_joins_contents [OF f p s] c
  have "snd (build_section example_fs ''education'' (Some [''full_cv'']) None None) =
      Inr (''PhD'' @ [CHR 0x0A, CHR 0x0A] @ ''School'')"
    by simp
  moreover have "\<exists>md selected.
        parse_metadata (the (metadata_file example_fs)) = Inr md
      \<and> select_units (Some [''full_cv'']) None None (dict_get md ''education'' []) = Inr selected
      \<and> map fst selected = [''msc'', ''course'', ''phd'', ''school'']"
    using p s by (intro exI [of _ ?md] exI [of _ ?selected]) simp
  ultimately show ?thesis
    using f by simp
qed

subsection \<open>The item limit\<close>

lemma sort_units_mset: "sort_units us = Inr sorted_units \<Longrightarrow> mset sorted_units = mset us"
  by (auto simp add: sort_units_def split: if_splits)

text \<open>
  C8. The limit is applied only when \<open>max_items\<close> is truthy. With \<open>max_items = 0\<close> the
  selection is the whole sorted list of the units that pass the tag filter, every one of
  them and not none; \<open>build_section\<close> does what it does without a limit; and, the metadata
  read and the units filtered and sorted, the string that \<open>build_section\<close> returns is made
  of the files of all the units that pass the filter.
\<close>

theorem max_items_zero_is_no_limit:
  "select_units tags (Some 0) exclude_tags section_data =
     (case filter_units tags exclude_tags section_data of
        Inl e \<Rightarrow> Inl e
      | Inr filtered \<Rightarrow> sort_units filtered)
   \<and> build_section fs section_name tags (Some 0) exclude_tags =
       build_section fs section_name tags None exclude_tags
   \<and> (select_units tags (Some 0) exclude_tags section_data = Inr selected \<longrightarrow>
        (\<exists>filtered. filter_units tags exclude_tags section_data = Inr filtered
                   \<and> mset selected = mset filtered))
   \<and> (metadata_file fs = Some ls \<and> parse_metadata ls = Inr md
        \<and> filter_units tags exclude_tags (dict_get md section_name []) = Inr passed
        \<and> sort_units passed = Inr sorted_units \<longrightarrow>
        mset sorted_units = mset passed
        \<and> snd (build_section fs section_name tags (Some 0) exclude_tags) =
            Inr (py_join [CHR 0x0A, CHR 0x0A] (unit_contents fs section_name sorted_units)))"
proof -
  have lim: "limit_units (Some 0) us = us" "limit_units None us = us"
    for us :: "(string \<times> props) list"
    by (simp_all add: limit_units_def)
  have sel: "select_units tags (Some 0) exclude_tags sd = select_units tags None exclude_tags sd"
    for sd
    by (simp add: select_units_def lim split: sum.splits)
  have first: "select_units tags (Some 0) exclude_tags sd =
          (case filter_units tags exclude_tags sd of
             Inl e \<Rightarrow> Inl e
           | Inr filtered \<Rightarrow> sort_units filtered)" for sd
    by (simp add: select_units_def lim split: sum.splits)
  have second: "build_section fs section_name tags (Some 0) exclude_tags =
      build_section fs section_name tags None exclude_tags"
    unfolding build_section_def sel by (rule refl)
  have third: "\<exists>filtered. filter_units tags exclude_tags section_data = Inr filtered
                   \<and> mset selected = mset filtered"
    if "select_units tags (Some 0) exclude_tags section_data = Inr selected"
    using that unfolding first
    by (cases "filter_units tags exclude_tags section_data") (simp_all add: sort_units_mset)
  have fourth: "mset sorted_units = mset passed
        \<and> snd (build_section fs section_name tags (Some 0) exclude_tags) =
            Inr (py_join [CHR 0x0A, CHR 0x0A] (unit_contents fs section_name sorted_units))"
    if "metadata_file fs = Some ls" "parse_metadata ls = Inr md"
      "filter_units tags exclude_tags (dict_get md section_name []) = Inr passed"
      "sort_units passed = Inr sorted_units"
  proof -
    from that(3, 4)
    have "select_units tags (Some 0) exclude_tags (dict_get md section_name []) = Inr sorted_units"
      by (simp add: first)
    from build_section_content [OF that(1, 2) this] sort_units_mset [OF that(4)]
    show ?thesis by simp
  qed
  from first [of section_data] second third fourth show ?thesis by blast
qed

theorem max_items_zero_is_no_limit_witness:
  "metadata_file all_files_fs = Some example_lines
   \<and> parse_metadata example_lines = Inr [(''education'', example_units)]
   \<and> filter_units None None (dict_get [(''education'', example_units)] ''education'' []) =
       Inr example_units
   \<and> sort_units example_units =
       Inr [(''msc'', [(''tags'', VList [''full_cv'', ''old'']), (''priority'', VInt 1)]),
            (''course'', [(''priority'', VInt 1)]),
            (''phd'', [(''tags'', VList [''full_cv'', ''short_cv'']), (''priority'', VInt 2)]),
            (''school'', [(''tags'', VList [''full_cv''])])]
   \<and> select_units None (Some 0) None example_units =
       Inr [(''msc'', [(''tags'', VList [''full_cv'', ''old'']), (''priority'', VInt 1)]),
            (''course'', [(''priority'', VInt 1)]),
            (''phd'', [(''tags'', VList [''full_cv'', ''short_cv'']), (''priority'', VInt 2)]),
            (''school'', [(''tags'', VList [''full_cv''])])]
   \<and> mset [(''msc'', [(''tags'', VList [''full_cv'', ''old'']), (''priority'', VInt 1)]),
            (''course'', [(''priority'', VInt 1)]),
            (''phd'', [(''tags'', VList [''full_cv'', ''short_cv'']), (''priority'', VInt 2)]),
            (''school'', [(''tags'', VList [''full_cv''])])] = mset example_units
   \<and> snd (build_section all_files_fs ''education'' None (Some 0) None) =
       Inr (''msc'' @ [CHR 0x0A, CHR 0x0A] @ ''course'' @ [CHR 0x0A, CHR 0x0A] @ ''phd''
            @ [CHR 0x0A, CHR 0x0A] @ ''school'')"
proof -
  let ?sorted =
    "[(''msc'', [(''tags'', VList [''full_cv'', ''old'']), (''priority'', VInt 1)]),
      (''course'', [(''priority'', VInt 1)]),
      (''phd'', [(''tags'', VList [''full_cv'', ''short_cv'']), (''priority'', VInt 2)]),
      (''school'', [(''tags'', VList [''full_cv''])])]"
  have m: "metadata_file all_files_fs = Some example_lines"
    by (simp add: all_files_fs_def)
  have p: "parse_metadata example_lines = Inr [(''education'', example_units)]"
    by code_simp
  have f: "filter_units None None (dict_get [(''education'', example_units)] ''education'' []) =
      Inr example_units"
    by code_simp
  have o: "sort_units example_units = Inr ?sorted"
    by code_simp
  have s: "select_units None (Some 0) None example_units = Inr ?sorted"
    by code_simp
  have c: "py_join [CHR 0x0A, CHR 0x0A] (unit_contents all_files_fs ''education'' ?sorted) =
      ''msc'' @ [CHR 0x0A, CHR 0x0A] @ ''course'' @ [CHR 0x0A, CHR 0x0A] @ ''phd''
        @ [CHR 0x0A, CHR 0x0A] @ ''school''"
    by code_simp
  from max_items_zero_is_no_limit [where tags = None and exclude_tags = None
      and section_data = example_units and selected = ?sorted and fs = all_files_fs
      and ls = example_lines and md = "[(''education'', example_units)]"
      and section_name = "''education''" and passed = example_units
      and sorted_units = ?sorted, THEN conjunct2, THEN conjunct2, THEN conjunct2]
    m p f o c
  have "mset ?sorted = mset example_units
      \<and> snd (build_section all_files_fs ''education'' None (Some 0) None) =
          Inr (''msc'' @ [CHR 0x0A, CHR 0x0A] @ ''course'' @ [CHR 0x0A, CHR 0x0A] @ ''phd''
               @ [CHR 0x0A, CHR 0x0A] @ ''school'')"
    by simp
  with m p f o s show ?thesis by simp
qed

subsection \<open>How the command ends\<close>

lemma parse_value_error: "parse_value v = Inl e \<Longrightarrow> \<not> is_exit e"
  by (auto simp add: parse_value_def py_int_def is_exit_def split: if_splits sum.splits)

lemma set_prop_error: "set_prop m cs cu k v = Inl e \<Longrightarrow> \<not> is_exit e"
  by (auto simp add: set_prop_def is_exit_def split: option.splits)

lemma set_unit_error: "set_unit m cs cu = Inl e \<Longrightarrow> \<not> is_exit e"
  by (auto simp add: set_unit_def is_exit_def split: option.splits)

lemma parse_property_error: "parse_property st line = Inl e \<Longrightarrow> \<not> is_exit e"
  by (auto simp add: parse_property_def Let_def is_exit_def
      dest: parse_value_error set_prop_error split: list.splits if_splits sum.splits)

lemma parse_line_error: "parse_line st raw = Inl e \<Longrightarrow> \<not> is_exit e"
  by (auto simp add: parse_line_def Let_def
      dest: parse_property_error set_unit_error split: if_splits sum.splits)

lemma parse_lines_error: "parse_lines st ls = Inl e \<Longrightarrow> \<not> is_exit e"
  by (induction ls arbitrary: st) (auto dest: parse_line_error split: sum.splits)

lemma parse_metadata_error: "parse_metadata ls = Inl e \<Longrightarrow> \<not> is_exit e"
  by (auto simp add: parse_metadata_def dest: parse_lines_error split: sum.splits)

lemma any_in_error: "any_in ts v = Inl e \<Longrightarrow> \<not> is_exit e"
  by (induction ts) (auto simp add: is_exit_def split: sum.splits if_splits elim: py_in.elims)

lemma filter_units_error: "filter_units tags exclude_tags us = Inl e \<Longrightarrow> \<not> is_exit e"
proof (induction us)
  case Nil
  then show ?case by simp
next
  case (Cons u us)
  obtain unit_name unit_meta where u: "u = (unit_name, unit_meta)" by (cases u)
  from Cons show ?case
    unfolding u
    by (auto simp add: excluded_def included_def dest: any_in_error
        split: sum.splits if_splits option.splits)
qed

lemma select_units_error:
  "select_units tags max_items exclude_tags us = Inl e \<Longrightarrow> \<not> is_exit e"
  by (auto simp add: select_units_def sort_units_def is_exit_def dest: filter_units_error
      split: sum.splits if_splits)

lemma build_section_exit:
  "snd (build_section fs section_name tags max_items exclude_tags) = Inl (SystemExit n)
     \<longleftrightarrow> metadata_file fs = None \<and> n = 1"
proof (cases "metadata_file fs")
  case None
  then show ?thesis
    by (auto simp add: build_section_def load_metadata_def)
next
  case (Some ls)
  have "snd (build_section fs section_name tags max_items exclude_tags) \<noteq> Inl (SystemExit n)"
  proof
    assume a: "snd (build_section fs section_name tags max_items exclude_tags) = Inl (SystemExit n)"
    have x: "is_exit (SystemExit n)" by (simp add: is_exit_def)
    from a x show False
      by (auto simp add: build_section_def load_metadata_def Some Let_def
          dest: parse_metadata_error select_units_error
          split: sum.splits if_splits prod.splits)
  qed
  with Some show ?thesis by simp
qed

lemma py_join_empty:
  "\<forall>x \<in> set xs. x \<noteq> [] \<Longrightarrow> py_join sep xs = [] \<longleftrightarrow> xs = []"
  by (induction sep xs rule: py_join.induct) simp_all

lemma unit_contents_nonempty: "\<forall>c \<in> set (unit_contents fs section_name us). c \<noteq> []"
  by (simp add: unit_contents_def)

lemma build_section_empty:
  assumes "metadata_file fs = Some ls"
    and "parse_metadata ls = Inr md"
    and "select_units tags max_items exclude_tags (dict_get md section_name []) = Inr selected"
  shows "snd (build_section fs section_name tags max_items exclude_tags) = Inr []
           \<longleftrightarrow> unit_contents fs section_name selected = []"
proof -
  have l: "load_metadata fs = ([], Inr md)"
    by (simp add: load_metadata_def assms(1, 2))
  have r: "snd (read_units fs section_name selected) = unit_contents fs section_name selected"
    by (rule read_units_contents)
  have j: "py_join [CHR 0x0A, CHR 0x0A] (unit_contents fs section_name selected) = []
      \<longleftrightarrow> unit_contents fs section_name selected = []"
    by (rule py_join_empty) (rule unit_contents_nonempty)
  show ?thesis
  proof (cases "dict_get md section_name [] = []")
    case True
    with assms(3) have "selected = []"
      by (simp add: select_units_def sort_units_def limit_units_def py_slice_to_def
          split: option.splits if_splits)
    with True show ?thesis
      by (simp add: build_section_def l unit_contents_def)
  next
    case False
    with r j show ?thesis
      by (cases "read_units fs section_name selected")
         (auto simp add: build_section_def l assms(3))
  qed
qed

text \<open>
  C5 (amended). The section builder ends through \<open>sys.exit\<close> in three ways only. Two are
  those of \<open>argparse\<close>: status 2 on a command line it rejects, status 0 after \<open>--help\<close>.
  Once the command line is accepted, it calls \<open>sys.exit(1)\<close> exactly when the metadata file
  does not exist or \<open>build_section\<close> returns the empty string; when the metadata file is
  missing it prints the error message first. With the metadata read and the units
  selected, \<open>build_section\<close> returns the empty string exactly when no selected unit has a
  file with content left after stripping: that is so when a file is missing, and also
  when all files exist and the tag filter selects no unit. Exceptions that escape are not
  part of this statement.
\<close>

theorem main_exit_cases:
  "(snd (main headers title path_text fs cl) = Inl (SystemExit n)
      \<longleftrightarrow> (cl = BadCommandLine \<and> n = 2)
          \<or> (cl = HelpRequested \<and> n = 0)
          \<or> (\<exists>a. cl = Parsed a \<and> n = 1
                 \<and> (metadata_file fs = None
                      \<or> snd (build_section fs (arg_section a) (arg_tags a) (arg_max_items a)
                               (arg_exclude_tags a)) = Inr [])))
   \<and> main headers title path_text (fs\<lparr>metadata_file := None\<rparr>) (Parsed a) =
       (verbose_header a @ [MetadataNotFound], Inl (SystemExit 1))
   \<and> (metadata_file fs = Some ls \<and> parse_metadata ls = Inr md
        \<and> select_units (arg_tags a) (arg_max_items a) (arg_exclude_tags a)
             (dict_get md (arg_section a) []) = Inr selected \<longrightarrow>
        (snd (main headers title path_text fs (Parsed a)) = Inl (SystemExit 1)
           \<longleftrightarrow> unit_contents fs (arg_section a) selected = []))"
proof -
  have m: "snd (main headers title path_text fs (Parsed b)) = Inl (SystemExit k)
      \<longleftrightarrow> snd (build_section fs (arg_section b) (arg_tags b) (arg_max_items b)
                 (arg_exclude_tags b)) = Inl (SystemExit k)
          \<or> (snd (build_section fs (arg_section b) (arg_tags b) (arg_max_items b)
                 (arg_exclude_tags b)) = Inr [] \<and> k = 1)" for k and b :: args
    by (cases "build_section fs (arg_section b) (arg_tags b) (arg_max_items b)
                 (arg_exclude_tags b)";
        cases "snd (build_section fs (arg_section b) (arg_tags b) (arg_max_items b)
                 (arg_exclude_tags b))")
       (auto simp add: main_def Let_def split: option.splits if_splits)
  have none: "snd (build_section fs (arg_section b) (arg_tags b) (arg_max_items b)
                 (arg_exclude_tags b)) \<noteq> Inr []" if "metadata_file fs = None" for b :: args
    using that by (simp add: build_section_def load_metadata_def)
  have parsed: "snd (main headers title path_text fs (Parsed b)) = Inl (SystemExit k)
      \<longleftrightarrow> k = 1 \<and> (metadata_file fs = None
                 \<or> snd (build_section fs (arg_section b) (arg_tags b) (arg_max_items b)
                          (arg_exclude_tags b)) = Inr [])" for k and b :: args
    unfolding m build_section_exit using none by auto
  have first: "snd (main headers title path_text fs cl) = Inl (SystemExit n)
      \<longleftrightarrow> (cl = BadCommandLine \<and> n = 2)
          \<or> (cl = HelpRequested \<and> n = 0)
          \<or> (\<exists>a. cl = Parsed a \<and> n = 1
                 \<and> (metadata_file fs = None
                      \<or> snd (build_section fs (arg_section a) (arg_tags a) (arg_max_items a)
                               (arg_exclude_tags a)) = Inr []))"
  proof (cases cl)
    case BadCommandLine
    then show ?thesis by (auto simp add: main_def)
  next
    case HelpRequested
    then show ?thesis by (auto simp add: main_def)
  next
    case (Parsed b)
    with parsed [of b n] show ?thesis by simp
  qed
  have second: "main headers title path_text (fs\<lparr>metadata_file := None\<rparr>) (Parsed a) =
      (verbose_header a @ [MetadataNotFound], Inl (SystemExit 1))"
    by (simp add: main_def build_section_def load_metadata_def)
  have third: "snd (main headers title path_text fs (Parsed a)) = Inl (SystemExit 1)
      \<longleftrightarrow> unit_contents fs (arg_section a) selected = []"
    if "metadata_file fs = Some ls" "parse_metadata ls = Inr md"
      "select_units (arg_tags a) (arg_max_items a) (arg_exclude_tags a)
         (dict_get md (arg_section a) []) = Inr selected"
    using build_section_empty [OF that] that(1) by (simp add: parsed)
  from first second third show ?thesis by blast
qed

theorem main_exit_cases_witness:
  "metadata_file complete_fs = Some [''s:'', ''  u:'', ''    tags: [a]'']
   \<and> parse_metadata [''s:'', ''  u:'', ''    tags: [a]''] =
       Inr [(''s'', [(''u'', [(''tags'', VList [''a''])])])]
   \<and> select_units (arg_tags no_match_args) (arg_max_items no_match_args)
         (arg_exclude_tags no_match_args)
         (dict_get [(''s'', [(''u'', [(''tags'', VList [''a''])])])] (arg_section no_match_args) [])
       = Inr []
   \<and> snd (main [] (\<lambda>s. s) (\<lambda>s. s) complete_fs (Parsed no_match_args)) = Inl (SystemExit 1)"
proof -
  have f: "metadata_file complete_fs = Some [''s:'', ''  u:'', ''    tags: [a]'']"
    by (simp add: complete_fs_def)
  have p: "parse_metadata [''s:'', ''  u:'', ''    tags: [a]''] =
      Inr [(''s'', [(''u'', [(''tags'', VList [''a''])])])]"
    by code_simp
  have s: "select_units (arg_tags no_match_args) (arg_max_items no_match_args)
         (arg_exclude_tags no_match_args)
         (dict_get [(''s'', [(''u'', [(''tags'', VList [''a''])])])] (arg_section no_match_args) [])
       = Inr []"
    by code_simp
  have c: "unit_contents complete_fs (arg_section no_match_args) [] = []"
    by (simp add: unit_contents_def)
  from main_exit_cases [of "[]" "\<lambda>s. s" "\<lambda>s. s" complete_fs _ _ no_match_args
      "[''s:'', ''  u:'', ''    tags: [a]'']" "[(''s'', [(''u'', [(''tags'', VList [''a''])])])]" "[]"]
    f p s c
  have "snd (main [] (\<lambda>s. s) (\<lambda>s. s) complete_fs (Parsed no_match_args)) = Inl (SystemExit 1)"
    by simp
  with f p s show ?thesis by simp
qed

text \<open>
  As the claim is written it fails: with an accepted command line, the metadata file and
  every unit file in place, a tag that no unit carries ends the command with status 1.
\<close>

theorem exit_without_missing_file_counterexample:
  "metadata_file complete_fs = Some [''s:'', ''  u:'', ''    tags: [a]'']
   \<and> unit_file complete_fs ''s'' ''u'' = Some ''text''
   \<and> main [] (\<lambda>s. s) (\<lambda>s. s) complete_fs (Parsed no_match_args) =
       ([NoContentWarning ''s'', NoContentGenerated ''s''], Inl (SystemExit 1))
   \<and> exit_status (snd (main [] (\<lambda>s. s) (\<lambda>s. s) complete_fs (Parsed no_match_args))) = 1"
  by code_simp

section \<open>Properties of the metadata parser\<close>

lemma map_of_dict_set: "map_of (dict_set d k v) = (map_of d)(k \<mapsto> v)"
  by (induction d) auto

lemma keys_dict_set: "fst ` set (dict_set d k v) = insert k (fst ` set d)"
proof -
  have "dom (map_of (dict_set d k v)) = insert k (dom (map_of d))"
    by (simp add: map_of_dict_set)
  then show ?thesis
    by (simp add: dom_map_of_conv_image_fst)
qed

lemma parse_lines_append:
  "parse_lines st (xs @ ys) =
     (case parse_lines st xs of Inl e \<Rightarrow> Inl e | Inr st' \<Rightarrow> parse_lines st' ys)"
  by (induction xs arbitrary: st) (simp_all split: sum.splits)

lemma parse_line_section:
  "section_name_of raw = Some S \<Longrightarrow>
   parse_line st raw =
     Inr (st\<lparr>current_section := Some S, metadata := dict_set (metadata st) S []\<rparr>)"
  by (simp add: section_name_of_def parse_line_def Let_def split: if_splits)

lemma parse_line_unit:
  "unit_name_of raw = Some U \<Longrightarrow>
   parse_line st raw =
     (if truthy (current_section st)
      then (case set_unit (metadata st) (the (current_section st)) U of
              Inl e \<Rightarrow> Inl e
            | Inr m \<Rightarrow> Inr (st\<lparr>current_unit := Some U, metadata := m\<rparr>))
      else Inr (st\<lparr>current_unit := Some U\<rparr>))"
  by (auto simp add: unit_name_of_def parse_line_def Let_def split: if_splits sum.splits)

lemma parse_line_other:
  "section_name_of raw = None \<Longrightarrow> unit_name_of raw = None \<Longrightarrow>
   (\<forall>st. parse_line st raw = Inr st)
   \<or> (\<forall>st. parse_line st raw = parse_property st (py_rstrip raw))"
  by (auto simp add: section_name_of_def unit_name_of_def parse_line_def Let_def split: if_splits)

lemma parse_property_shape:
  assumes "parse_property st line = Inr st2"
  shows "\<exists>key v. \<forall>s. parse_property s line =
           (if truthy (current_section s) \<and> truthy (current_unit s)
            then (case parse_value v of
                    Inl e \<Rightarrow> Inl e
                  | Inr pv \<Rightarrow>
                      (case set_prop (metadata s) (the (current_section s))
                              (the (current_unit s)) key pv of
                         Inl e \<Rightarrow> Inl e
                       | Inr m \<Rightarrow> Inr (s\<lparr>metadata := m\<rparr>)))
            else Inr s)"
proof -
  from assms obtain key raw where "py_split1 CHR '':'' (py_strip line) = [key, raw]"
    by (auto simp add: parse_property_def split: list.splits)
  then have "\<forall>s. parse_property s line =
           (if truthy (current_section s) \<and> truthy (current_unit s)
            then (case parse_value (py_strip raw) of
                    Inl e \<Rightarrow> Inl e
                  | Inr pv \<Rightarrow>
                      (case set_prop (metadata s) (the (current_section s))
                              (the (current_unit s)) key pv of
                         Inl e \<Rightarrow> Inl e
                       | Inr m \<Rightarrow> Inr (s\<lparr>metadata := m\<rparr>)))
            else Inr s)"
    by (simp add: parse_property_def Let_def)
  then show ?thesis by blast
qed

lemma agree_lookup:
  assumes "agree st st'" and "current_section st' = Some cs"
  shows "map_of (metadata st) cs = map_of (metadata st') cs"
    and "map_of (metadata st') cs \<noteq> None"
proof -
  from assms show n: "map_of (metadata st') cs \<noteq> None"
    by (auto simp add: agree_def)
  from assms have "map_of (metadata st') \<subseteq>\<^sub>m map_of (metadata st)"
    by (simp add: agree_def)
  with n show "map_of (metadata st) cs = map_of (metadata st') cs"
    by (auto simp add: map_le_def dom_def)
qed

lemma agree_section:
  assumes "agree st st'"
  shows "agree (st\<lparr>current_section := Some S, metadata := dict_set (metadata st) S []\<rparr>)
               (st'\<lparr>current_section := Some S, metadata := dict_set (metadata st') S []\<rparr>)"
proof -
  from assms have "map_of (metadata st') \<subseteq>\<^sub>m map_of (metadata st)"
    by (simp add: agree_def)
  then have "(map_of (metadata st'))(S \<mapsto> []) \<subseteq>\<^sub>m (map_of (metadata st))(S \<mapsto> [])"
    by (rule map_le_upd)
  with assms show ?thesis
    by (auto simp add: agree_def map_of_dict_set)
qed

lemma agree_unit:
  assumes "agree st st'"
    and "parse_line st raw = Inr st2"
    and "unit_name_of raw = Some U"
  shows "\<exists>st2'. parse_line st' raw = Inr st2' \<and> agree st2 st2'"
proof (cases "truthy (current_section st)")
  case False
  with assms(1) have f: "\<not> truthy (current_section st')" by (simp add: agree_def)
  from assms(2) False have "st2 = st\<lparr>current_unit := Some U\<rparr>"
    by (simp add: parse_line_unit [OF assms(3)])
  moreover from f have "parse_line st' raw = Inr (st'\<lparr>current_unit := Some U\<rparr>)"
    by (simp add: parse_line_unit [OF assms(3)])
  moreover from assms(1)
  have "agree (st\<lparr>current_unit := Some U\<rparr>) (st'\<lparr>current_unit := Some U\<rparr>)"
    by (auto simp add: agree_def)
  ultimately show ?thesis by simp
next
  case True
  with assms(1) have t: "truthy (current_section st')" by (simp add: agree_def)
  then obtain cs where cs: "current_section st' = Some cs" "current_section st = Some cs"
    using assms(1) by (auto simp add: agree_def truthy_def split: option.splits)
  from agree_lookup [OF assms(1) cs(1)] obtain us where
    us: "map_of (metadata st') cs = Some us" "map_of (metadata st) cs = Some us"
    by auto
  from assms(2) True us cs
  have "st2 = st\<lparr>current_unit := Some U,
                     metadata := dict_set (metadata st) cs (dict_set us U [])\<rparr>"
    by (simp add: parse_line_unit [OF assms(3)] set_unit_def)
  moreover from t us cs
  have "parse_line st' raw =
      Inr (st'\<lparr>current_unit := Some U,
               metadata := dict_set (metadata st') cs (dict_set us U [])\<rparr>)"
    by (simp add: parse_line_unit [OF assms(3)] set_unit_def)
  moreover have "agree (st\<lparr>current_unit := Some U,
                     metadata := dict_set (metadata st) cs (dict_set us U [])\<rparr>)
      (st'\<lparr>current_unit := Some U,
               metadata := dict_set (metadata st') cs (dict_set us U [])\<rparr>)"
    using assms(1) cs by (auto simp add: agree_def map_of_dict_set intro: map_le_upd)
  ultimately show ?thesis by simp
qed

lemma agree_property:
  assumes "agree st st'"
    and "parse_property st line = Inr st2"
  shows "\<exists>st2'. parse_property st' line = Inr st2' \<and> agree st2 st2'"
proof -
  from parse_property_shape [OF assms(2)] obtain key v where
    shape: "\<And>s. parse_property s line =
           (if truthy (current_section s) \<and> truthy (current_unit s)
            then (case parse_value v of
                    Inl e \<Rightarrow> Inl e
                  | Inr pv \<Rightarrow>
                      (case set_prop (metadata s) (the (current_section s))
                              (the (current_unit s)) key pv of
                         Inl e \<Rightarrow> Inl e
                       | Inr m \<Rightarrow> Inr (s\<lparr>metadata := m\<rparr>)))
            else Inr s)"
    by blast
  from assms(1) obtain cs where cs: "current_section st' = Some cs" "current_section st = Some cs"
    by (auto simp add: agree_def)
  from agree_lookup [OF assms(1) cs(1)] obtain us where
    us: "map_of (metadata st') cs = Some us" "map_of (metadata st) cs = Some us"
    by auto
  show ?thesis
  proof (cases "truthy (current_section st) \<and> truthy (current_unit st)")
    case False
    with assms(2) have same: "st2 = st" by (auto simp add: shape)
    from False assms(1) cs have "\<not> (truthy (current_section st') \<and> truthy (current_unit st'))"
      by (auto simp add: agree_def truthy_def)
    then have "parse_property st' line = Inr st'" by (auto simp add: shape)
    with same assms(1) show ?thesis by simp
  next
    case True
    then obtain cu where cu: "current_unit st = Some cu"
      by (auto simp add: truthy_def split: option.splits)
    from assms(2) True obtain pv m where
      pv: "parse_value v = Inr pv"
      and m: "set_prop (metadata st) cs cu key pv = Inr m"
      and st2: "st2 = st\<lparr>metadata := m\<rparr>"
      by (auto simp add: shape cs cu split: sum.splits)
    from m us obtain ps where ps: "map_of us cu = Some ps"
      and m_eq: "m = dict_set (metadata st) cs (dict_set us cu (dict_set ps key pv))"
      by (auto simp add: set_prop_def split: option.splits)
    from ps have "us \<noteq> []" by auto
    with assms(1) us cs cu have cu': "current_unit st' = Some cu"
      by (auto simp add: agree_def)
    with True cs have t': "truthy (current_section st') \<and> truthy (current_unit st')"
      by (simp add: cu)
    have "parse_property st' line =
        Inr (st'\<lparr>metadata := dict_set (metadata st') cs (dict_set us cu (dict_set ps key pv))\<rparr>)"
      using t' by (simp add: shape pv cs cu' set_prop_def us ps)
    moreover have "agree (st\<lparr>metadata := m\<rparr>)
        (st'\<lparr>metadata := dict_set (metadata st') cs (dict_set us cu (dict_set ps key pv))\<rparr>)"
      using assms(1) cs cu cu' unfolding m_eq
      by (auto simp add: agree_def map_of_dict_set intro: map_le_upd)
    ultimately show ?thesis using st2 by simp
  qed
qed

lemma agree_step:
  assumes "agree st st'"
    and "parse_line st raw = Inr st2"
  shows "\<exists>st2'. parse_line st' raw = Inr st2' \<and> agree st2 st2'"
proof (cases "section_name_of raw")
  case (Some S)
  with assms show ?thesis
    by (auto simp add: parse_line_section intro: agree_section)
next
  case None
  show ?thesis
  proof (cases "unit_name_of raw")
    case (Some U)
    with assms show ?thesis by (auto intro: agree_unit)
  next
    case n: None
    from parse_line_other [OF None n] show ?thesis
    proof
      assume "\<forall>st. parse_line st raw = Inr st"
      with assms show ?thesis by simp
    next
      assume p: "\<forall>st. parse_line st raw = parse_property st (py_rstrip raw)"
      with assms(2) have "parse_property st (py_rstrip raw) = Inr st2" by simp
      from agree_property [OF assms(1) this] p show ?thesis by simp
    qed
  qed
qed

lemma agree_lines:
  assumes "agree st st'"
    and "parse_lines st ls = Inr st2"
  shows "\<exists>st2'. parse_lines st' ls = Inr st2' \<and> agree st2 st2'"
  using assms
proof (induction ls arbitrary: st st')
  case Nil
  then show ?case by simp
next
  case (Cons l ls)
  from Cons.prems(2) obtain st1 where
    l: "parse_line st l = Inr st1" and ls: "parse_lines st1 ls = Inr st2"
    by (auto split: sum.splits)
  from agree_step [OF Cons.prems(1) l] obtain st1' where
    l': "parse_line st' l = Inr st1'" and a: "agree st1 st1'"
    by blast
  from Cons.IH [OF a ls] l' show ?case by simp
qed

lemma parse_line_keeps_sections:
  "parse_line st raw = Inr st2 \<Longrightarrow> map_of (metadata st) S \<noteq> None \<Longrightarrow>
   map_of (metadata st2) S \<noteq> None"
  by (auto simp add: parse_line_def parse_property_def set_unit_def set_prop_def Let_def
      map_of_dict_set split: if_splits sum.splits option.splits list.splits)

lemma parse_lines_keeps_sections:
  "parse_lines st ls = Inr st2 \<Longrightarrow> map_of (metadata st) S \<noteq> None \<Longrightarrow>
   map_of (metadata st2) S \<noteq> None"
proof (induction ls arbitrary: st)
  case Nil
  then show ?case by simp
next
  case (Cons l ls)
  from Cons.prems(1) obtain st1 where
    l: "parse_line st l = Inr st1" and ls: "parse_lines st1 ls = Inr st2"
    by (auto split: sum.splits)
  from parse_line_keeps_sections [OF l Cons.prems(2)] Cons.IH [OF ls] show ?case by simp
qed

lemma dict_get_dict_set:
  "dict_get (dict_set d k v) k' dflt = (if k' = k then v else dict_get d k' dflt)"
  by (simp add: dict_get_def map_of_dict_set)

lemma units_of_dict_set:
  "units_of (dict_set m cs us) T = (if T = cs then fst ` set us else units_of m T)"
  by (simp add: units_of_def dict_get_dict_set)

lemma units_of_lookup: "map_of m T = Some us \<Longrightarrow> units_of m T = fst ` set us"
  by (simp add: units_of_def dict_get_def)

lemma set_prop_units:
  assumes "set_prop m cs cu key pv = Inr m2"
  shows "units_of m2 T = units_of m T"
proof -
  from assms obtain us ps where us: "map_of m cs = Some us" and ps: "map_of us cu = Some ps"
    and m2: "m2 = dict_set m cs (dict_set us cu (dict_set ps key pv))"
    by (auto simp add: set_prop_def split: option.splits)
  from ps have "cu \<in> dom (map_of us)" by blast
  then have "cu \<in> fst ` set us" by (simp add: dom_map_of_conv_image_fst)
  then have "insert cu (fst ` set us) = fst ` set us" by blast
  then show ?thesis
    unfolding m2 by (simp add: units_of_dict_set keys_dict_set units_of_lookup [OF us])
qed

lemma parse_property_units:
  assumes "parse_property st line = Inr st2"
  shows "units_of (metadata st2) T = units_of (metadata st) T"
proof -
  from parse_property_shape [OF assms] obtain key v where
    shape: "parse_property st line =
           (if truthy (current_section st) \<and> truthy (current_unit st)
            then (case parse_value v of
                    Inl e \<Rightarrow> Inl e
                  | Inr pv \<Rightarrow>
                      (case set_prop (metadata st) (the (current_section st))
                              (the (current_unit st)) key pv of
                         Inl e \<Rightarrow> Inl e
                       | Inr m \<Rightarrow> Inr (st\<lparr>metadata := m\<rparr>)))
            else Inr st)"
    by blast
  show ?thesis
  proof (cases "truthy (current_section st) \<and> truthy (current_unit st)")
    case False
    with assms shape have "st2 = st" by auto
    then show ?thesis by simp
  next
    case True
    with assms shape obtain pv m where
      "set_prop (metadata st) (the (current_section st)) (the (current_unit st)) key pv = Inr m"
      and "st2 = st\<lparr>metadata := m\<rparr>"
      by (auto split: sum.splits)
    then show ?thesis by (simp add: set_prop_units)
  qed
qed

lemma parse_line_units:
  assumes "parse_line st raw = Inr st2"
  shows "units_of (metadata st2) T \<subseteq> units_of (metadata st) T \<union> set_option (unit_name_of raw)"
proof (cases "section_name_of raw")
  case (Some S)
  with assms show ?thesis
    by (auto simp add: parse_line_section units_of_dict_set split: if_splits)
next
  case None
  show ?thesis
  proof (cases "unit_name_of raw")
    case (Some U)
    with assms show ?thesis
      by (auto simp add: parse_line_unit set_unit_def units_of_dict_set keys_dict_set
          units_of_lookup split: if_splits option.splits)
  next
    case n: None
    from parse_line_other [OF None n] assms show ?thesis
      by (auto simp add: parse_property_units)
  qed
qed

lemma parse_lines_units:
  assumes "parse_lines st ls = Inr st2"
  shows "units_of (metadata st2) T \<subseteq>
           units_of (metadata st) T \<union> {U. \<exists>l \<in> set ls. unit_name_of l = Some U}"
  using assms
proof (induction ls arbitrary: st)
  case Nil
  then show ?case by simp
next
  case (Cons l ls)
  from Cons.prems obtain st1 where
    l: "parse_line st l = Inr st1" and ls: "parse_lines st1 ls = Inr st2"
    by (auto split: sum.splits)
  from parse_line_units [OF l, of T] Cons.IH [OF ls] show ?case
    by (cases "unit_name_of l") fastforce+
qed

text \<open>
  C9. Sections of the same name are not merged. A top-level section line binds its name to
  a fresh empty mapping; so when the parser returns, what the result holds for a name is
  what the parser would return for it on the lines from an occurrence of that section
  line on, whatever came before, and every unit it holds for the name is named by a unit
  line after that occurrence. This holds for every occurrence, the last one in
  particular.
\<close>

theorem duplicate_section_rebinds:
  assumes "section_name_of sl = Some S"
    and "parse_metadata (pre @ sl # post) = Inr m"
  shows "(\<forall>st. \<exists>st'. parse_line st sl = Inr st' \<and> map_of (metadata st') S = Some [])
       \<and> (\<exists>m'. parse_metadata (sl # post) = Inr m' \<and> map_of m' S = map_of m S)
       \<and> (\<forall>U \<in> units_of m S. \<exists>l \<in> set post. unit_name_of l = Some U)"
proof -
  let ?after = "\<lambda>st :: parser_state. st\<lparr>current_section := Some S, metadata := dict_set (metadata st) S []\<rparr>"
  have line: "parse_line st sl = Inr (?after st)" for st :: parser_state
    by (rule parse_line_section [OF assms(1)])
  have fresh: "map_of (metadata (?after st)) S = Some []" for st :: parser_state
    by (simp add: map_of_dict_set)
  from assms(2) obtain st1 st2 where
    pre: "parse_lines initial_state pre = Inr st1"
    and post: "parse_lines (?after st1) post = Inr st2"
    and m: "m = metadata st2"
    by (auto simp add: parse_metadata_def parse_lines_append line split: sum.splits)
  have "agree (?after st1) (?after initial_state)"
    by (auto simp add: agree_def initial_state_def map_of_dict_set map_le_def)
  from agree_lines [OF this post] obtain st2' where
    post': "parse_lines (?after initial_state) post = Inr st2'" and a: "agree st2 st2'"
    by blast
  have "map_of (metadata (?after initial_state)) S \<noteq> None"
    by (simp add: map_of_dict_set)
  with post' have "map_of (metadata st2') S \<noteq> None"
    by (rule parse_lines_keeps_sections)
  with a have "map_of (metadata st2') S = map_of (metadata st2) S"
    by (auto simp add: agree_def map_le_def dom_def)
  with post' m have second: "\<exists>m'. parse_metadata (sl # post) = Inr m' \<and> map_of m' S = map_of m S"
    by (simp add: parse_metadata_def line)
  have "units_of (metadata (?after st1)) S = {}"
    by (simp add: units_of_dict_set)
  with parse_lines_units [OF post, of S] m
  have third: "\<forall>U \<in> units_of m S. \<exists>l \<in> set post. unit_name_of l = Some U"
    by auto
  from line fresh second third show ?thesis by blast
qed

theorem duplicate_section_rebinds_witness:
  "section_name_of ''a:'' = Some ''a''
   \<and> parse_metadata ([''a:'', ''  u:'', ''    k: v''] @ ''a:'' # [''  w:'']) =
       Inr [(''a'', [(''w'', [])])]
   \<and> ''w'' \<in> units_of [(''a'', [(''w'', [])])] ''a''
   \<and> (\<exists>l \<in> set [''  w:'']. unit_name_of l = Some ''w'')
   \<and> (\<exists>m'. parse_metadata (''a:'' # [''  w:'']) = Inr m'
          \<and> map_of m' ''a'' = Some [(''w'', [])])"
proof -
  have s: "section_name_of ''a:'' = Some ''a''"
    by code_simp
  have p: "parse_metadata ([''a:'', ''  u:'', ''    k: v''] @ ''a:'' # [''  w:'']) =
      Inr [(''a'', [(''w'', [])])]"
    by code_simp
  have u: "''w'' \<in> units_of [(''a'', [(''w'', [])])] ''a''"
    by (simp add: units_of_def dict_get_def)
  from duplicate_section_rebinds [OF s p] u
  have "(\<exists>l \<in> set [''  w:'']. unit_name_of l = Some ''w'')
      \<and> (\<exists>m'. parse_metadata (''a:'' # [''  w:'']) = Inr m'
             \<and> map_of m' ''a'' = Some [(''w'', [])])"
    by (simp del: parse_lines.simps)
  with s p u show ?thesis by blast
qed

subsection \<open>Lines that are skipped, and what a property line stores\<close>

lemma parse_line_skipped: "is_skipped (py_rstrip raw) \<Longrightarrow> parse_line st raw = Inr st"
  by (simp add: parse_line_def Let_def)

lemma parse_line_unrecognised:
  "\<not> is_section_line (py_rstrip raw) \<Longrightarrow> \<not> is_unit_line (py_rstrip raw) \<Longrightarrow>
   \<not> is_property_line (py_rstrip raw) \<Longrightarrow> parse_line st raw = Inr st"
  by (simp add: parse_line_def Let_def)

lemma in_set_dropWhile: "x \<in> set xs \<Longrightarrow> \<not> P x \<Longrightarrow> x \<in> set (dropWhile P xs)"
  by (induction xs) auto

lemma colon_in_strip: "CHR '':'' \<in> set line \<Longrightarrow> CHR '':'' \<in> set (py_strip line)"
proof -
  assume c: "CHR '':'' \<in> set line"
  have n: "\<not> is_space CHR '':''" by (simp add: is_space_def)
  from c have "CHR '':'' \<in> set (rev line)" by simp
  then have "CHR '':'' \<in> set (dropWhile is_space (rev line))"
    using n by (rule in_set_dropWhile)
  then have "CHR '':'' \<in> set (py_rstrip line)" by (simp add: py_rstrip_def)
  then show ?thesis
    unfolding py_strip_def py_lstrip_def using n by (rule in_set_dropWhile)
qed

lemma property_split:
  "is_property_line line \<Longrightarrow>
   py_split1 CHR '':'' (py_strip line) =
     [takeWhile (\<lambda>c. c \<noteq> CHR '':'') (py_strip line),
      tl (dropWhile (\<lambda>c. c \<noteq> CHR '':'') (py_strip line))]"
  by (simp add: is_property_line_def py_split1_def colon_in_strip)

lemma parse_line_property_without_unit:
  assumes "\<not> is_skipped (py_rstrip raw)" and "\<not> is_section_line (py_rstrip raw)"
    and "\<not> is_unit_line (py_rstrip raw)" and "is_property_line (py_rstrip raw)"
    and "\<not> (truthy (current_section st) \<and> truthy (current_unit st))"
  shows "parse_line st raw = Inr st"
  using assms
  by (auto simp add: parse_line_def parse_property_def property_split [OF assms(4)] Let_def)

lemma parse_line_property_stores:
  assumes "\<not> is_skipped (py_rstrip raw)" and "\<not> is_section_line (py_rstrip raw)"
    and "\<not> is_unit_line (py_rstrip raw)" and "is_property_line (py_rstrip raw)"
    and "current_section st = Some cs" and "cs \<noteq> []"
    and "current_unit st = Some cu" and "cu \<noteq> []"
    and "map_of (metadata st) cs = Some us" and "map_of us cu = Some ps"
    and "parse_value (py_strip (tl (dropWhile (\<lambda>c. c \<noteq> CHR '':'') (py_strip (py_rstrip raw)))))
           = Inr pv"
  shows "parse_line st raw =
           Inr (st\<lparr>metadata :=
                  dict_set (metadata st) cs
                    (dict_set us cu
                       (dict_set ps (takeWhile (\<lambda>c. c \<noteq> CHR '':'') (py_strip (py_rstrip raw)))
                          pv))\<rparr>)"
  using assms
  by (simp add: parse_line_def parse_property_def property_split [OF assms(4)] Let_def
      truthy_def set_prop_def)

subsection \<open>Inputs on which the parser raises\<close>

text \<open>
  C6. The parser does not return on every text. The guard of the property branch tests
  that a section and a unit have been seen, not that the unit belongs to the section: a
  property line that follows a new section line before any unit line of that section
  raises \<open>KeyError\<close>, in both scripts.
\<close>

theorem parser_raises_on_stale_unit:
  "parse_metadata stale_unit_lines = Inl (KeyError ''u'')
   \<and> load_metadata (fs_with stale_unit_lines) = ([], Inl (KeyError ''u''))
   \<and> load_simple_metadata (fs_with stale_unit_lines) = Inl (KeyError ''u'')"
  by code_simp

text \<open>
  C4. The typing of values has a gap between its test and its conversion: \<open>isdigit\<close>
  accepts the superscript digits, which \<open>int\<close> rejects, so such a value is neither stored
  as an int nor as a string: the parser raises \<open>ValueError\<close>.
\<close>

theorem parser_raises_on_superscript_digit:
  "py_isdigit [CHR 0xB2]
   \<and> parse_value [CHR 0xB2] = Inl (ValueError [CHR 0xB2])
   \<and> parse_metadata superscript_lines = Inl (ValueError [CHR 0xB2])
   \<and> load_metadata (fs_with superscript_lines) = ([], Inl (ValueError [CHR 0xB2]))
   \<and> load_simple_metadata (fs_with superscript_lines) = Inl (ValueError [CHR 0xB2])"
  by code_simp

text \<open>A value that is one double quote alone loses it, though no pair surrounds it.\<close>

lemma lone_quote_is_removed: "parse_value [CHR 0x22] = Inr (VStr [])"
  by code_simp

text \<open>
  What the typing does on the other values: a bracketed value is a list of its stripped
  non-empty tokens, a non-empty value of decimal digits is an int, and any other value
  without a digit character of \<open>isdigit\<close> is a string, without its first and last
  character when both are double quotes.
\<close>

lemma parse_value_list:
  "py_startswith v ''['' \<Longrightarrow> py_endswith v '']'' \<Longrightarrow>
   parse_value v =
     Inr (VList (filter (\<lambda>t. t \<noteq> []) (map py_strip (py_split CHR '','' (slice_1_m1 v)))))"
  by (simp add: parse_value_def)

lemma parse_value_int:
  "\<not> (py_startswith v ''['' \<and> py_endswith v '']'') \<Longrightarrow>
   v \<noteq> [] \<Longrightarrow> list_all is_decimal_char v \<Longrightarrow>
   parse_value v = Inr (VInt (foldl (\<lambda>n c. 10 * n + digit_value c) 0 v))"
  by (simp add: parse_value_def py_isdigit_def py_int_def is_digit_char_def list_all_iff)

lemma parse_value_string:
  "\<not> (py_startswith v ''['' \<and> py_endswith v '']'') \<Longrightarrow> \<not> py_isdigit v \<Longrightarrow>
   parse_value v =
     Inr (VStr (if py_startswith v [CHR 0x22] \<and> py_endswith v [CHR 0x22]
                then slice_1_m1 v else v))"
  by (simp add: parse_value_def)

section \<open>Properties of the bibliography splitter\<close>

lemma dict_set_new: "k \<notin> fst ` set d \<Longrightarrow> dict_set d k v = d @ [(k, v)]"
  by (induction d) auto

lemma subset_lookup_add:
  "subset_lookup (subsets_add subsets N key e) S k =
     (if S = N \<and> k = key then Some e else subset_lookup subsets S k)"
  by (simp add: subset_lookup_def subsets_add_def dict_get_dict_set map_of_dict_set)

lemma subset_lookup_add_tags:
  "subset_lookup (add_tags subsets tag_prefix key e tags) S k =
     (if k = key \<and> S \<noteq> [] \<and> S \<in> subset_name_of tag_prefix ` set tags then Some e
      else subset_lookup subsets S k)"
  by (induction tags arbitrary: subsets) (auto simp add: subset_lookup_add)

lemma placed_in_tags:
  "placed_in tag_prefix e S \<longleftrightarrow>
     S \<noteq> [] \<and> S \<in> subset_name_of tag_prefix ` set (entry_tags tag_prefix e)"
  by (auto simp add: placed_in_def entry_tags_def keywords_of_def subset_name_of_def list_ex_iff)

lemma extract_loop_subsets:
  assumes "distinct (map fst rest)"
  shows "subset_lookup (fst (extract_loop (subsets, all_entries) tag_prefix rest)) S k =
           (case map_of rest k of
              None \<Rightarrow> subset_lookup subsets S k
            | Some e \<Rightarrow> if placed_in tag_prefix e S then Some e else subset_lookup subsets S k)"
  using assms
proof (induction rest arbitrary: subsets all_entries)
  case Nil
  show ?case by simp
next
  case (Cons x rest)
  obtain key e where x: "x = (key, e)" by (cases x)
  from Cons.prems x have d: "distinct (map fst rest)" and n: "map_of rest key = None"
    by (auto simp add: map_of_eq_None_iff)
  show ?case
    unfolding x
    by (auto simp add: Cons.IH [OF d] n subset_lookup_add_tags placed_in_tags
        split: option.splits)
qed

lemma extract_loop_all:
  assumes "distinct (map fst (all_entries @ rest))"
  shows "snd (extract_loop (subsets, all_entries) tag_prefix rest) = all_entries @ rest"
  using assms
proof (induction rest arbitrary: subsets all_entries)
  case Nil
  show ?case by simp
next
  case (Cons x rest)
  obtain key e where x: "x = (key, e)" by (cases x)
  from Cons.prems x have new: "key \<notin> fst ` set all_entries" by auto
  from Cons.prems x have "distinct (map fst ((all_entries @ [(key, e)]) @ rest))" by simp
  from Cons.IH [OF this] show ?case
    unfolding x by (simp add: dict_set_new [OF new])
qed

text \<open>
  C7. Splitting the bibliography: for entries under distinct keys and every prefix, the
  subset named \<open>S\<close> holds an entry under its key exactly when one of the entry's
  comma-separated keywords, stripped, starts with the prefix and the rest of it, stripped,
  is the non-empty name \<open>S\<close>; and \<open>all_entries\<close> is the whole input, whatever the keywords.
\<close>

theorem extract_tagged_entries_splits:
  assumes "distinct (map fst bib_data)"
  shows "subset_lookup (fst (extract_tagged_entries bib_data tag_prefix)) S key =
           (case map_of bib_data key of
              None \<Rightarrow> None
            | Some e \<Rightarrow> if placed_in tag_prefix e S then Some e else None)
       \<and> snd (extract_tagged_entries bib_data tag_prefix) = bib_data"
proof -
  have "subset_lookup ([] :: 'a subsets) S key = None"
    by (simp add: subset_lookup_def dict_get_def)
  then have "subset_lookup (fst (extract_tagged_entries bib_data tag_prefix)) S key =
           (case map_of bib_data key of
              None \<Rightarrow> None
            | Some e \<Rightarrow> if placed_in tag_prefix e S then Some e else None)"
    by (simp add: extract_tagged_entries_def extract_loop_subsets [OF assms]
        split: option.splits)
  moreover have "snd (extract_tagged_entries bib_data tag_prefix) = bib_data"
    using assms by (simp add: extract_tagged_entries_def extract_loop_all)
  ultimately show ?thesis by simp
qed

theorem extract_tagged_entries_splits_witness:
  "distinct (map fst example_bib)
   \<and> placed_in ''pub:'' (snd (hd example_bib)) ''journal''
   \<and> placed_in ''pub:'' (snd (hd example_bib)) ''highlight''
   \<and> subset_lookup (fst (extract_tagged_entries example_bib ''pub:'')) ''journal'' ''smith2020'' =
       Some (snd (hd example_bib))
   \<and> subset_lookup (fst (extract_tagged_entries example_bib ''pub:'')) ''highlight'' ''smith2020'' =
       Some (snd (hd example_bib))
   \<and> subset_lookup (fst (extract_tagged_entries example_bib ''pub:'')) ''journal'' ''doe2021'' = None
   \<and> snd (extract_tagged_entries example_bib ''pub:'') = example_bib"
proof -
  have d: "distinct (map fst example_bib)"
    by code_simp
  have p1: "placed_in ''pub:'' (snd (hd example_bib)) ''journal''"
    by code_simp
  have p2: "placed_in ''pub:'' (snd (hd example_bib)) ''highlight''"
    by code_simp
  have p3: "\<not> placed_in ''pub:'' (snd (example_bib ! 1)) ''journal''"
    by code_simp
  have m1: "map_of example_bib ''smith2020'' = Some (snd (hd example_bib))"
    by (simp add: example_bib_def)
  have m2: "map_of example_bib ''doe2021'' = Some (snd (example_bib ! 1))"
    by (simp add: example_bib_def)
  from extract_tagged_entries_splits [OF d, of "''pub:''" "''journal''" "''smith2020''"]
    extract_tagged_entries_splits [OF d, of "''pub:''" "''highlight''" "''smith2020''"]
    extract_tagged_entries_splits [OF d, of "''pub:''" "''journal''" "''doe2021''"]
    d p1 p2 p3 m1 m2
  show ?thesis by simp
qed

lemma py_lower_char_idem: "py_lower_char (py_lower_char c) = py_lower_char c"
  by (auto simp add: py_lower_char_def Let_def)

lemma py_lower_idem: "py_lower (py_lower s) = py_lower s"
  by (simp add: py_lower_def py_lower_char_idem)

lemma dict_set_others: "filter (\<lambda>kv. fst kv \<noteq> k) (dict_set d k v) = filter (\<lambda>kv. fst kv \<noteq> k) d"
  by (induction d) auto

lemma dict_pop_others: "filter (\<lambda>kv. fst kv \<noteq> k) (dict_pop d k) = filter (\<lambda>kv. fst kv \<noteq> k) d"
  by (simp add: dict_pop_def)

lemma map_of_dict_pop: "map_of (dict_pop d k) k = None"
  by (auto simp add: dict_pop_def map_of_eq_None_iff)

text \<open>
  What holds for every entry when the result is read by the exact name \<open>keywords\<close>, a field
  under any other spelling counting as another field: the persons are the same, a type in
  lower case is the same, the other fields are the same in the same order, an entry in
  which no \<open>keywords\<close> field is found comes back as it is, and otherwise the field
  \<open>keywords\<close> of the result holds the remapped keywords that start with a valid prefix,
  joined by a comma and a space, or is absent when none is left.
\<close>

lemma process_keywords_by_exact_name:
  "persons (process_keywords e keyword_mappings valid_prefixes) = persons e
   \<and> (etype e = py_lower t \<longrightarrow>
        etype (process_keywords e keyword_mappings valid_prefixes) = etype e)
   \<and> other_fields (efields (process_keywords e keyword_mappings valid_prefixes)) =
       other_fields (efields e)
   \<and> (case fields_lookup (efields e) ''keywords'' of
         None \<Rightarrow> process_keywords e keyword_mappings valid_prefixes = e
       | Some kws \<Rightarrow>
           fields_lookup (efields (process_keywords e keyword_mappings valid_prefixes))
             ''keywords'' =
             (if remap_keywords keyword_mappings
                   (case valid_prefixes of None \<Rightarrow> default_prefixes | Some ps \<Rightarrow> ps) kws = []
              then None
              else Some (py_join '', ''
                     (remap_keywords keyword_mappings
                        (case valid_prefixes of None \<Rightarrow> default_prefixes | Some ps \<Rightarrow> ps)
                        kws))))"
proof (cases "fields_lookup (efields e) ''keywords''")
  case None
  then have "process_keywords e keyword_mappings valid_prefixes = e"
    by (simp add: process_keywords_def)
  with None show ?thesis by simp
next
  case (Some kws)
  let ?r = "remap_keywords keyword_mappings
      (case valid_prefixes of None \<Rightarrow> default_prefixes | Some ps \<Rightarrow> ps) kws"
  let ?items = "fields_items (efields e)"
  have p: "process_keywords e keyword_mappings valid_prefixes =
      \<lparr>etype = py_lower (etype e),
       efields = Plain (if ?r \<noteq> [] then dict_set ?items ''keywords'' (py_join '', '' ?r)
                        else dict_pop ?items ''keywords''),
       persons = persons e\<rparr>"
    by (simp add: process_keywords_def Some Let_def)
  have "etype e = py_lower t \<longrightarrow> py_lower (etype e) = etype e"
    by (simp add: py_lower_idem)
  moreover have "other_fields (Plain (if ?r \<noteq> [] then dict_set ?items ''keywords'' (py_join '', '' ?r)
                        else dict_pop ?items ''keywords'')) = other_fields (efields e)"
    by (simp add: other_fields_def dict_set_others dict_pop_others)
  moreover have "fields_lookup (Plain (if ?r \<noteq> [] then dict_set ?items ''keywords'' (py_join '', '' ?r)
                        else dict_pop ?items ''keywords'')) ''keywords'' =
      (if ?r = [] then None else Some (py_join '', '' ?r))"
    by (simp add: map_of_dict_set map_of_dict_pop)
  ultimately show ?thesis
    unfolding p by (simp add: Some)
qed

lemma process_keywords_example:
  "process_keywords example_entry [(''journal'', ''pub:journal'')] None =
       \<lparr>etype = ''article'',
        efields = Plain [(''title'', ''A''), (''keywords'', ''pub:journal, topic:x''),
                         (''year'', ''2020'')],
        persons = ()\<rparr>"
  by code_simp

text \<open>
  C10. \<open>process_keywords\<close> does not do what its comments say (filter to only prefixed
  keywords, remove the field if no valid keywords remain) when the field is not spelled
  in lower case. The entry finds its fields whatever the case of the name, so the code
  reads the keywords of a field spelled \<open>Keywords\<close>; but the copy \<open>dict(entry.fields)\<close> is an
  ordinary dictionary under the spelling of the file, where \<open>pop("keywords")\<close> removes
  nothing and the assignment to \<open>"keywords"\<close> adds a second field. The result keeps the
  field with the keywords that were to be filtered out.
\<close>

theorem process_keywords_misses_other_spelling:
  "fields_lookup (efields (capitalised_entry ''draft'')) ''keywords'' = Some ''draft''
   \<and> remap_keywords [] default_prefixes ''draft'' = []
   \<and> process_keywords (capitalised_entry ''draft'') [] None =
       \<lparr>etype = ''article'',
        efields = Plain [(''title'', ''A''), (''Keywords'', ''draft'')],
        persons = ()\<rparr>
   \<and> fields_lookup (efields (capitalised_entry ''pub:a, draft'')) ''keywords'' =
       Some ''pub:a, draft''
   \<and> remap_keywords [] default_prefixes ''pub:a, draft'' = [''pub:a'']
   \<and> process_keywords (capitalised_entry ''pub:a, draft'') [] None =
       \<lparr>etype = ''article'',
        efields = Plain [(''title'', ''A''), (''Keywords'', ''pub:a, draft''),
                         (''keywords'', ''pub:a'')],
        persons = ()\<rparr>"
  by code_simp

end
